theory Spec2Isabelle
  imports Complex_Main "HOL-Library.Multiset"
begin

section \<open>Spike-train statistics of \<open>lussac/utils/misc.py\<close>\<close>

text \<open>
  Conventions of the embedding.
  \<^item> Spike times are \<open>int64\<close> sample indices. For the non-negative trains the program
    receives, no difference of two spike times leaves the \<open>int64\<close> range, so they are
    unbounded \<open>int\<close>s here.
  \<^item> Floating-point numbers are idealised as \<open>real\<close>s: the model has the program's
    formulas and control flow, not its rounding.
  \<^item> \<open>Utils.sampling_frequency\<close> and \<open>Utils.t_max\<close> live in \<open>lussac/utils/variables.py\<close>;
    every function that reads them takes them as its first parameters.
  \<^item> A Python exception is a value \<open>Inl e\<close> of the result type.
\<close>

datatype py_error = ZeroDivisionError | ValueError | IndexError | AssertionError

subsection \<open>Border probabilities\<close>

text \<open>\<open>_get_border_probabilities(max_time)\<close>: returns
  \<open>(border_low, border_high, p_low, p_high)\<close>.\<close>

definition get_border_probabilities :: "real \<Rightarrow> int \<times> int \<times> real \<times> real" where
  "get_border_probabilities max_time =
     (let border_high = \<lceil>max_time\<rceil>;
          border_low = \<lfloor>max_time\<rfloor>;
          p_high = (1/2) * (max_time - of_int border_high + 1)\<^sup>2;
          p_low = (1/2) * (1 - (max_time - of_int border_low)\<^sup>2) + (max_time - of_int border_low);
          p_low = (if border_low = 0 then p_low - (1/2) * (- max_time + 1)\<^sup>2 else p_low)
      in (border_low, border_high, p_low, p_high))"

subsection \<open>Refractory-period violations\<close>

text \<open>The three counters \<open>(n_violations, n_violations_low, n_violations_high)\<close> of
  \<open>compute_nb_violations\<close>.\<close>

type_synonym counters = "nat \<times> nat \<times> nat"

text \<open>The inner loop \<open>for j in range(i+1, len(spike_train))\<close> for a fixed \<open>spike_train[i]\<close>,
  over the spikes that follow it; \<open>break\<close> returns the counters as they are.\<close>

fun violations_inner :: "int \<Rightarrow> int \<Rightarrow> int \<Rightarrow> int list \<Rightarrow> counters \<Rightarrow> counters" where
  "violations_inner border_low border_high ti [] c = c"
| "violations_inner border_low border_high ti (tj # rest) (n, n_low, n_high) =
     (let diff = tj - ti in
      if diff > border_high then (n, n_low, n_high)
      else if diff = border_high then
        violations_inner border_low border_high ti rest (n, n_low, n_high + 1)
      else if diff = border_low then
        violations_inner border_low border_high ti rest (n, n_low + 1, n_high)
      else violations_inner border_low border_high ti rest (n + 1, n_low, n_high))"

text \<open>The outer loop \<open>for i in range(len(spike_train)-1)\<close>: the last spike starts no
  inner loop.\<close>

fun violations_outer :: "int \<Rightarrow> int \<Rightarrow> int list \<Rightarrow> counters \<Rightarrow> counters" where
  "violations_outer border_low border_high [] c = c"
| "violations_outer border_low border_high [ti] c = c"
| "violations_outer border_low border_high (ti # tj # rest) c =
     violations_outer border_low border_high (tj # rest)
       (violations_inner border_low border_high ti (tj # rest) c)"

definition compute_nb_violations :: "int list \<Rightarrow> real \<Rightarrow> real" where
  "compute_nb_violations spike_train max_time =
     (if max_time \<le> 0 then 0
      else
        (case get_border_probabilities max_time of
           (border_low, border_high, p_low, p_high) \<Rightarrow>
             (case violations_outer border_low border_high spike_train (0, 0, 0) of
                (n_violations, n_violations_low, n_violations_high) \<Rightarrow>
                  real n_violations + p_high * real n_violations_high
                    + p_low * real n_violations_low)))"

subsection \<open>Contamination\<close>

text \<open>\<open>estimate_contamination(spike_train, refractory_period)\<close>. The only exception of
  the body is the float division by \<open>N**2 * (t_r - t_c)\<close>.\<close>

definition estimate_contamination ::
  "real \<Rightarrow> real \<Rightarrow> int list \<Rightarrow> real \<times> real \<Rightarrow> py_error + real" where
  "estimate_contamination sampling_frequency t_max spike_train refractory_period =
     (let t_c = fst refractory_period * (1/1000) * sampling_frequency;
          t_r = snd refractory_period * (1/1000) * sampling_frequency;
          n_v = compute_nb_violations spike_train t_r;
          N = real (length spike_train);
          T = t_max
      in if N\<^sup>2 * (t_r - t_c) = 0 then Inl ZeroDivisionError
         else
           (let D = 1 - n_v * (T - 2 * N * t_c) / (N\<^sup>2 * (t_r - t_c))
            in Inr (if D < 0 then 1 else 1 - sqrt D)))"

subsection \<open>Coincidences between two spike trains\<close>

text \<open>The inner loop \<open>for j in range(start_j, len(spike_train2))\<close> of
  \<open>compute_nb_coincidence\<close> for a fixed \<open>spike_train1[i]\<close>. The state is
  \<open>(start_j, n_coincident, n_coincident_low, n_coincident_high)\<close>; the list is
  \<open>spike_train2[start_j:]\<close> as it was when the loop started.\<close>

fun coincidence_inner :: "int \<Rightarrow> int \<Rightarrow> int \<Rightarrow> int list \<Rightarrow> nat \<times> counters \<Rightarrow> nat \<times> counters" where
  "coincidence_inner border_low border_high ti [] s = s"
| "coincidence_inner border_low border_high ti (tj # rest) (start_j, n, n_low, n_high) =
     (let diff = ti - tj in
      if diff > border_high then
        coincidence_inner border_low border_high ti rest (start_j + 1, n, n_low, n_high)
      else if diff < - border_high then (start_j, n, n_low, n_high)
      else if \<bar>diff\<bar> = border_high then
        coincidence_inner border_low border_high ti rest (start_j, n, n_low, n_high + 1)
      else if \<bar>diff\<bar> = border_low then
        coincidence_inner border_low border_high ti rest (start_j, n, n_low + 1, n_high)
      else coincidence_inner border_low border_high ti rest (start_j, n + 1, n_low, n_high))"

text \<open>The outer loop \<open>for i in range(len(spike_train1))\<close>; \<open>start_j\<close> is carried from
  one spike of the first train to the next.\<close>

fun coincidence_outer ::
  "int \<Rightarrow> int \<Rightarrow> int list \<Rightarrow> int list \<Rightarrow> nat \<times> counters \<Rightarrow> nat \<times> counters" where
  "coincidence_outer border_low border_high [] spike_train2 s = s"
| "coincidence_outer border_low border_high (ti # rest) spike_train2 s =
     coincidence_outer border_low border_high rest spike_train2
       (coincidence_inner border_low border_high ti (drop (fst s) spike_train2) s)"

definition compute_nb_coincidence :: "int list \<Rightarrow> int list \<Rightarrow> real \<Rightarrow> real" where
  "compute_nb_coincidence spike_train1 spike_train2 max_time =
     (if max_time \<le> 0 then 0
      else
        (case get_border_probabilities max_time of
           (border_low, border_high, p_low, p_high) \<Rightarrow>
             (case coincidence_outer border_low border_high spike_train1 spike_train2
                     (0, 0, 0, 0) of
                (start_j, n_coincident, n_coincident_low, n_coincident_high) \<Rightarrow>
                  real n_coincident + p_high * real n_coincident_high
                    + p_low * real n_coincident_low)))"

subsection \<open>Cross-contamination\<close>

text \<open>The estimate is a float that may be \<open>-np.inf\<close>.\<close>

datatype estimate = Finite real | MinusInfinity

text \<open>\<open>estimate_cross_contamination(spike_train1, spike_train2, refractory_period, limit)\<close>.
  \<open>scipy.stats.binom.cdf\<close> and \<open>scipy.stats.norm.cdf\<close> are library functions and are
  parameters here; neither raises. The exceptions of the body are the two float
  divisions and \<open>math.sqrt\<close> of a negative number.\<close>

definition estimate_cross_contamination ::
  "(real \<Rightarrow> real \<Rightarrow> real \<Rightarrow> real) \<Rightarrow> (real \<Rightarrow> real \<Rightarrow> real \<Rightarrow> real) \<Rightarrow> real \<Rightarrow> real \<Rightarrow>
   int list \<Rightarrow> int list \<Rightarrow> real \<times> real \<Rightarrow> real \<Rightarrow> py_error + estimate \<times> real" where
  "estimate_cross_contamination binom_cdf norm_cdf sampling_frequency t_max
       spike_train1 spike_train2 refractory_period limit =
     (let N1 = real (length spike_train1);
          N2 = real (length spike_train2)
      in case estimate_contamination sampling_frequency t_max spike_train1 refractory_period of
           Inl e \<Rightarrow> Inl e
         | Inr C1 \<Rightarrow>
            (let t_c = fst refractory_period * (1/1000) * sampling_frequency;
                 t_r = snd refractory_period * (1/1000) * sampling_frequency;
                 n_violations = compute_nb_coincidence spike_train1 spike_train2 t_r
                                - compute_nb_coincidence spike_train1 spike_train2 t_c
             in case (if C1 \<noteq> 1 then
                        (if 2 * N1 * N2 * t_r = 0 then Inl ZeroDivisionError
                         else Inr (Finite (1 - ((n_violations * t_max) / (2 * N1 * N2 * t_r) - 1)
                                               / (C1 - 1))))
                      else Inr MinusInfinity) of
                  Inl e \<Rightarrow> Inl e
                | Inr estimation \<Rightarrow>
                   (let n = N1 * N2 * ((1 - C1) * limit + C1) in
                    if t_max = 0 then Inl ZeroDivisionError
                    else
                      (let p = 2 * t_r / t_max in
                       if n * p < 30 then
                         Inr (estimation, 1 - binom_cdf n_violations n p)
                       else if n * p * (1 - p) < 0 then Inl ValueError
                       else Inr (estimation,
                                 1 - norm_cdf n_violations (n * p) (sqrt (n * p * (1 - p))))))))"

subsection \<open>Gaussian histogram\<close>

text \<open>In an array of floats, \<open>None\<close> stands for an entry that is not a finite number
  (\<open>inf\<close>, \<open>-inf\<close> or \<open>nan\<close>). A division of a finite number by zero in \<open>numpy\<close> or in
  compiled code yields such a value and does not raise.\<close>

definition np_divide :: "real \<Rightarrow> real \<Rightarrow> real option" where
  "np_divide x y = (if y = 0 then None else Some (x / y))"

text \<open>\<open>np.searchsorted(a, v, side)\<close> on an ascending array: the number of elements
  \<open>\<le> v\<close> (\<open>side="right"\<close>) or \<open>< v\<close> (\<open>side="left"\<close>).\<close>

definition searchsorted_right :: "real list \<Rightarrow> real \<Rightarrow> nat" where
  "searchsorted_right a v = length (filter (\<lambda>x. x \<le> v) a)"

definition searchsorted_left :: "real list \<Rightarrow> real \<Rightarrow> nat" where
  "searchsorted_left a v = length (filter (\<lambda>x. x < v) a)"

text \<open>The term \<open>np.exp(-0.5 * ((e - t_axis[i]) / sigma) ** 2)\<close> for \<open>x = e - t_axis[i]\<close>. With
  \<open>sigma = 0\<close> the quotient is \<open>nan\<close> when \<open>x = 0\<close> and so is the term; it is infinite
  otherwise, and the exponential of \<open>-inf\<close> is \<open>0.0\<close>.\<close>

definition kernel_term :: "real \<Rightarrow> real \<Rightarrow> real option" where
  "kernel_term x sigma =
     (if sigma = 0 then (if x = 0 then None else Some 0)
      else Some (exp (- (1/2) * (x / sigma)\<^sup>2)))"

text \<open>The inner loop \<open>for e in events[start_j:]\<close> of \<open>_gaussian_kernel\<close> for one point
  \<open>t = t_axis[i]\<close>; the state is \<open>(start_j, histogram[i])\<close>. Nothing raises; a sum with a
  \<open>nan\<close> is a \<open>nan\<close>.\<close>

fun kernel_inner ::
  "real \<Rightarrow> real \<Rightarrow> real \<Rightarrow> real list \<Rightarrow> nat \<times> real option \<Rightarrow> nat \<times> real option" where
  "kernel_inner sigma truncate t [] s = s"
| "kernel_inner sigma truncate t (e # rest) (start_j, h) =
     (if e < t - truncate * sigma then kernel_inner sigma truncate t rest (start_j + 1, h)
      else if e > t + truncate * sigma then (start_j, h)
      else kernel_inner sigma truncate t rest
             (start_j,
              Option.bind h (\<lambda>acc.
              Option.bind (kernel_term (e - t) sigma) (\<lambda>term. Some (acc + term)))))"

text \<open>The outer loop over \<open>t_axis\<close>, run in the order of the axis, with \<open>start_j\<close> carried
  from one point to the next; it returns the list of the \<open>histogram[i]\<close>, each of which
  starts at \<open>0\<close>.\<close>

fun kernel_outer :: "real \<Rightarrow> real \<Rightarrow> real list \<Rightarrow> real list \<Rightarrow> nat \<Rightarrow> real option list" where
  "kernel_outer sigma truncate events [] start_j = []"
| "kernel_outer sigma truncate events (t # ts) start_j =
     (case kernel_inner sigma truncate t (drop start_j events) (start_j, Some 0) of
        (start_j', h) \<Rightarrow> h # kernel_outer sigma truncate events ts start_j')"

text \<open>\<open>_gaussian_kernel(events, t_axis, sigma, truncate)\<close>: the histogram divided by
  \<open>sigma * np.sqrt(2*np.pi)\<close>; with \<open>sigma = 0\<close> no entry is a finite number.\<close>

definition gaussian_kernel :: "real list \<Rightarrow> real list \<Rightarrow> real \<Rightarrow> real \<Rightarrow> real option list" where
  "gaussian_kernel events t_axis sigma truncate =
     map (\<lambda>h. Option.bind h (\<lambda>acc. np_divide acc (sigma * sqrt (2 * pi))))
       (kernel_outer sigma truncate events t_axis 0)"

text \<open>\<open>gaussian_histogram(events, t_axis, sigma, truncate, margin_reflect)\<close>. With
  \<open>margin_reflect\<close>, \<open>np.min\<close> of an empty array raises \<open>ValueError\<close> and \<open>t_axis[0]\<close> of
  an empty axis raises \<open>IndexError\<close>, in this order; nothing else raises.\<close>

definition gaussian_histogram ::
  "real list \<Rightarrow> real list \<Rightarrow> real \<Rightarrow> real \<Rightarrow> bool \<Rightarrow> py_error + real option list" where
  "gaussian_histogram events t_axis sigma truncate margin_reflect =
     (let events = sort events in
      if margin_reflect then
        (if events = [] then Inl ValueError
         else if t_axis = [] then Inl IndexError
         else
           (let events_low =
                  (if Min (set events) \<ge> hd t_axis then
                     map (\<lambda>e. 2 * hd t_axis - e)
                       (rev (take (searchsorted_right events (hd t_axis + truncate * sigma)) events))
                   else []);
                events_high =
                  (if Max (set events) \<le> last t_axis then
                     map (\<lambda>e. 2 * last t_axis - e)
                       (rev (drop (searchsorted_left events (last t_axis - truncate * sigma)) events))
                   else [])
            in Inr (gaussian_kernel (events_low @ events @ events_high) t_axis sigma truncate)))
      else Inr (gaussian_kernel events t_axis sigma truncate))"

subsection \<open>Similarity matrix\<close>

text \<open>A two-dimensional \<open>numpy\<close> array: its \<open>shape\<close> and its rows.\<close>

record 'a array2d =
  shape :: "nat \<times> nat"
  rows :: "'a list list"

text \<open>The three integer arrays of \<open>compute_similarity_matrix\<close> are \<open>int64\<close> arrays, their
  entries \<open>int\<close>s of that range here. A product of two entries wraps around.\<close>

definition int64_wrap :: "int \<Rightarrow> int" where
  "int64_wrap x = (x + 2 ^ 63) mod 2 ^ 64 - 2 ^ 63"

text \<open>One cell of the result of \<open>compute_similarity_matrix\<close>, from the coincidence count
  \<open>c\<close> and the spike counts \<open>a = n_spikes1[i]\<close>, \<open>b = n_spikes2[j]\<close>. Once a division by
  zero has made \<open>similarity_matrix\<close> or \<open>expected_matrix\<close> infinite or \<open>nan\<close> in a cell, the
  cell of the result is not a finite number either.\<close>

definition similarity_cell :: "real \<Rightarrow> real \<Rightarrow> int \<Rightarrow> int \<Rightarrow> int \<Rightarrow> real option" where
  "similarity_cell t_max window c a b =
     (let minimum_n_spikes = real_of_int (min a b) in
      Option.bind (np_divide (real_of_int c) minimum_n_spikes) (\<lambda>similarity.
      Option.bind (np_divide (real_of_int (int64_wrap (a * b)) * (2 * window + 1)) t_max)
        (\<lambda>rate.
      Option.bind (np_divide rate minimum_n_spikes) (\<lambda>expected.
      np_divide (similarity - expected) (1 - expected)))))"

text \<open>\<open>compute_similarity_matrix(coincidence_matrix, n_spikes1, n_spikes2, window)\<close>: the
  \<open>assert\<close> on the shape is its first statement.\<close>

definition compute_similarity_matrix ::
  "real \<Rightarrow> int array2d \<Rightarrow> int list \<Rightarrow> int list \<Rightarrow> real \<Rightarrow> py_error + real option array2d" where
  "compute_similarity_matrix t_max coincidence_matrix n_spikes1 n_spikes2 window =
     (if shape coincidence_matrix \<noteq> (length n_spikes1, length n_spikes2) then Inl AssertionError
      else Inr \<lparr>shape = shape coincidence_matrix,
                rows = map (\<lambda>(row, a). map (\<lambda>(c, b). similarity_cell t_max window c a b)
                                          (zip row n_spikes2))
                         (zip (rows coincidence_matrix) n_spikes1)\<rparr>)"

subsection \<open>Gaussian mask of the band filter\<close>

text \<open>\<open>scipy.stats.norm.pdf\<close>: the density of the standard normal distribution.\<close>

definition norm_pdf :: "real \<Rightarrow> real" where
  "norm_pdf x = exp (- x\<^sup>2 / 2) / sqrt (2 * pi)"

text \<open>Python's \<open>round\<close> of a float: the nearest integer, and the even one at a tie.\<close>

definition py_round :: "real \<Rightarrow> int" where
  "py_round x =
     (let f = \<lfloor>x\<rfloor>; r = x - of_int f
      in if r < 1/2 then f else if r > 1/2 then f + 1 else if even f then f else f + 1)"

text \<open>\<open>np.fft.fft(a, n)\<close>: the input is cropped or padded with zeros to the length \<open>n\<close>,
  and the output is \<open>A[k] = \<Sum>m<n. a[m] * exp(-2\<pi>i * m * k / n)\<close>; \<open>n = 0\<close> raises
  \<open>ValueError\<close>.\<close>

definition np_fft :: "complex list \<Rightarrow> nat \<Rightarrow> py_error + complex list" where
  "np_fft a n =
     (if n = 0 then Inl ValueError
      else
        (let a' = take n a @ replicate (n - length a) 0
         in Inr (map (\<lambda>k. \<Sum>m<n. a' ! m * cis (- 2 * pi * real m * real k / real n)) [0..<n])))"

text \<open>\<open>np.fft.fftfreq(n, d)\<close>: the integers \<open>0, \<dots>, (n-1)//2, -(n//2), \<dots>, -1\<close> times
  \<open>val = 1.0 / (n * d)\<close>, a float division that raises when \<open>n * d\<close> is zero.\<close>

definition np_fftfreq :: "nat \<Rightarrow> real \<Rightarrow> py_error + real list" where
  "np_fftfreq n d =
     (if real n * d = 0 then Inl ZeroDivisionError
      else
        (let val = 1 / (real n * d)
         in Inr (map (\<lambda>i. real_of_int i * val)
                   ([0 .. (int n - 1) div 2] @ [- (int n div 2) .. - 1]))))"

text \<open>\<open>_create_fft_gaussian(N, cutoff_freq)\<close>; \<open>filter\<close> calls it with \<open>N = data.shape[axis]\<close>
  for each of the two frequencies of the band. With \<open>sigma = 0\<close> every sample of the
  time-domain kernel is \<open>nan\<close>, and so is every entry of its transform. With
  \<open>cutoff_freq = 0\<close> in the frequency domain, \<open>freq_axis / cutoff_freq\<close> is \<open>nan\<close> at the
  frequency \<open>0\<close> and infinite elsewhere, where \<open>norm.pdf\<close> is \<open>nan\<close> and \<open>0.0\<close>.\<close>

definition create_fft_gaussian :: "real \<Rightarrow> nat \<Rightarrow> real \<Rightarrow> py_error + real option list" where
  "create_fft_gaussian sampling_frequency N cutoff_freq =
     (if cutoff_freq > sampling_frequency / 8 then
        (if 2 * pi * cutoff_freq = 0 then Inl ZeroDivisionError
         else
           (let sigma = sampling_frequency / (2 * pi * cutoff_freq);
                limit = py_round (6 * sigma) + 1
            in if sigma = 0 then (if N = 0 then Inl ValueError else Inr (replicate N None))
               else
                 (let xaxis = map (\<lambda>i. real_of_int i / sigma) [- limit .. limit];
                      gaussian = map (\<lambda>x. norm_pdf x / sigma) xaxis
                  in case np_fft (map complex_of_real gaussian) N of
                       Inl e \<Rightarrow> Inl e
                     | Inr spectrum \<Rightarrow> Inr (map (\<lambda>z. Some (cmod z)) spectrum))))
      else
        (if sampling_frequency = 0 then Inl ZeroDivisionError
         else
           (case np_fftfreq N (1 / sampling_frequency) of
              Inl e \<Rightarrow> Inl e
            | Inr freq_axis \<Rightarrow>
                Inr (map (\<lambda>x. if cutoff_freq = 0 then (if x = 0 then None else Some 0)
                               else Some (norm_pdf (x / cutoff_freq) * sqrt (2 * pi)))
                       freq_axis))))"

section \<open>Notions of the specification\<close>

text \<open>The weight the specification gives to an ordered pair of spikes whose difference is
  \<open>d\<close>: \<open>p_high\<close> at the ceiling of \<open>max_time\<close>, \<open>p_low\<close> at its floor, \<open>1\<close> below the
  floor, nothing above the ceiling.\<close>

definition violation_weight :: "real \<Rightarrow> int \<Rightarrow> real" where
  "violation_weight max_time d =
     (let lo = \<lfloor>max_time\<rfloor>;
          hi = \<lceil>max_time\<rceil>;
          p_high = (1/2) * (max_time - of_int hi + 1)\<^sup>2;
          p_low = (1/2) * (1 - (max_time - of_int lo)\<^sup>2) + (max_time - of_int lo)
                  - (if lo = 0 then (1/2) * (1 - max_time)\<^sup>2 else 0)
      in if d = hi then p_high else if d = lo then p_low else if d < lo then 1 else 0)"

text \<open>The weighted count of the ordered pairs \<open>i < j\<close> of a train.\<close>

definition weighted_pair_count :: "real \<Rightarrow> int list \<Rightarrow> real" where
  "weighted_pair_count max_time train =
     (\<Sum>j<length train. \<Sum>i<j. violation_weight max_time (train ! j - train ! i))"

text \<open>The gaps between consecutive spikes of a train.\<close>

definition inter_spike_gaps :: "int list \<Rightarrow> int list" where
  "inter_spike_gaps train = map (\<lambda>(a, b). b - a) (zip train (tl train))"

text \<open>The \<open>InvalidInput\<close> conditions of the specification on a spike train and a
  refractory period.\<close>

definition invalid_input :: "int list \<Rightarrow> real \<times> real \<Rightarrow> bool" where
  "invalid_input train refractory_period \<longleftrightarrow>
     \<not> sorted_wrt (<) train \<or> (\<exists>x\<in>set train. x < 0)
     \<or> fst refractory_period \<ge> snd refractory_period"

section \<open>Auxiliary functions of the proofs\<close>

text \<open>The value \<open>n + p_high * n_high + p_low * n_low\<close> that both counting functions return
  from their counters.\<close>

definition score :: "real \<Rightarrow> real \<Rightarrow> counters \<Rightarrow> real" where
  "score p_low p_high c =
     (case c of (n, n_low, n_high) \<Rightarrow> real n + p_high * real n_high + p_low * real n_low)"

text \<open>What one pass of the body of \<open>violations_inner\<close> adds to the score.\<close>

definition border_weight :: "int \<Rightarrow> int \<Rightarrow> real \<Rightarrow> real \<Rightarrow> int \<Rightarrow> real" where
  "border_weight bl bh pl ph d =
     (if d > bh then 0 else if d = bh then ph else if d = bl then pl else 1)"

fun pair_sum :: "(int \<Rightarrow> real) \<Rightarrow> int list \<Rightarrow> real" where
  "pair_sum w [] = 0"
| "pair_sum w (x # xs) = (\<Sum>y\<leftarrow>xs. w (y - x)) + pair_sum w xs"

text \<open>The counter that one pass of the body of \<open>coincidence_inner\<close> increments.\<close>

definition border_class :: "int \<Rightarrow> int \<Rightarrow> int \<Rightarrow> counters" where
  "border_class bl bh d =
     (if d > bh \<or> d < - bh then (0, 0, 0)
      else if \<bar>d\<bar> = bh then (0, 0, 1)
      else if \<bar>d\<bar> = bl then (0, 1, 0)
      else (1, 0, 0))"

fun add_counters :: "counters \<Rightarrow> counters \<Rightarrow> counters" where
  "add_counters (a, b, c) (a', b', c') = (a + a', b + b', c + c')"

fun class_total :: "int \<Rightarrow> int \<Rightarrow> int \<Rightarrow> int list \<Rightarrow> counters" where
  "class_total bl bh ti [] = (0, 0, 0)"
| "class_total bl bh ti (tj # rest) =
     add_counters (border_class bl bh (ti - tj)) (class_total bl bh ti rest)"

fun all_pairs_total :: "int \<Rightarrow> int \<Rightarrow> int list \<Rightarrow> int list \<Rightarrow> counters" where
  "all_pairs_total bl bh [] st2 = (0, 0, 0)"
| "all_pairs_total bl bh (ti # rest) st2 =
     add_counters (class_total bl bh ti st2) (all_pairs_total bl bh rest st2)"

text \<open>The number of passes of the loop bodies that incremented a counter.\<close>

definition total :: "counters \<Rightarrow> nat" where
  "total c = (case c of (n, n_low, n_high) \<Rightarrow> n + n_low + n_high)"

text \<open>The quantity \<open>D\<close> of \<open>estimate_contamination\<close>.\<close>

definition contamination_D :: "real \<Rightarrow> real \<Rightarrow> int list \<Rightarrow> real \<times> real \<Rightarrow> real" where
  "contamination_D sf T train rp =
     (let t_c = fst rp * (1/1000) * sf;
          t_r = snd rp * (1/1000) * sf;
          n_v = compute_nb_violations train t_r;
          N = real (length train)
      in 1 - n_v * (T - 2 * N * t_c) / (N\<^sup>2 * (t_r - t_c)))"

text \<open>The quantity \<open>n_violations\<close> of \<open>estimate_cross_contamination\<close>.\<close>

definition cross_violations :: "real \<Rightarrow> int list \<Rightarrow> int list \<Rightarrow> real \<times> real \<Rightarrow> real" where
  "cross_violations sf A B rp =
     compute_nb_coincidence A B (snd rp * (1/1000) * sf)
     - compute_nb_coincidence A B (fst rp * (1/1000) * sf)"

text \<open>Two distribution functions to put in the place of the library's in the concrete
  instances: which of the two was called shows in the p-value.\<close>

definition cdf_zero :: "real \<Rightarrow> real \<Rightarrow> real \<Rightarrow> real" where
  "cdf_zero x a b = 0"

definition cdf_half :: "real \<Rightarrow> real \<Rightarrow> real \<Rightarrow> real" where
  "cdf_half x a b = 1/2"

section \<open>Violations: the loop against the weighted pair count\<close>

lemma score_simps [simp]: "score pl ph (n, nl, nh) = real n + ph * real nh + pl * real nl"
  by (simp add: score_def)

lemma violations_inner_score:
  "sorted rest \<Longrightarrow>
   score pl ph (violations_inner bl bh ti rest c) =
     score pl ph c + (\<Sum>tj\<leftarrow>rest. border_weight bl bh pl ph (tj - ti))"
proof (induction rest arbitrary: c)
  case Nil
  then show ?case by simp
next
  case (Cons tj rest)
  obtain n nl nh where c: "c = (n, nl, nh)" by (cases c) auto
  from Cons.prems have srt: "sorted rest" and ge: "\<forall>x\<in>set rest. tj \<le> x" by auto
  show ?case
  proof (cases "tj - ti > bh")
    case True
    have "\<forall>x\<in>set rest. border_weight bl bh pl ph (x - ti) = 0"
      using ge True by (auto simp: border_weight_def)
    then have "(\<Sum>x\<leftarrow>rest. border_weight bl bh pl ph (x - ti)) = 0"
      by (simp cong: map_cong)
    with True show ?thesis by (simp add: c border_weight_def)
  next
    case False
    then show ?thesis
      using Cons.IH [OF srt] by (simp add: c Let_def border_weight_def algebra_simps)
  qed
qed

lemma violations_outer_score:
  "sorted train \<Longrightarrow>
   score pl ph (violations_outer bl bh train c) =
     score pl ph c + pair_sum (border_weight bl bh pl ph) train"
proof (induction bl bh train c rule: violations_outer.induct)
  case (1 bl bh c)
  then show ?case by simp
next
  case (2 bl bh ti c)
  then show ?case by simp
next
  case (3 bl bh ti tj rest c)
  from "3.prems" have s1: "sorted (tj # rest)" by simp
  show ?case
    using "3.IH" [OF s1] violations_inner_score [OF s1, of pl ph bl bh ti c]
    by simp
qed

lemma pair_sum_index:
  "pair_sum w xs = (\<Sum>j<length xs. \<Sum>i<j. w (xs ! j - xs ! i))"
proof (induction xs)
  case Nil
  then show ?case by simp
next
  case (Cons x xs)
  have a: "(\<Sum>y\<leftarrow>xs. w (y - x)) = (\<Sum>j<length xs. w (xs ! j - x))"
    by (simp add: sum_list_sum_nth atLeast0LessThan)
  have "(\<Sum>j<length (x # xs). \<Sum>i<j. w ((x # xs) ! j - (x # xs) ! i))
      = (\<Sum>j<length xs. \<Sum>i<Suc j. w (xs ! j - (x # xs) ! i))"
    by (simp add: sum.lessThan_Suc_shift del: sum.lessThan_Suc)
  also have "\<dots> = (\<Sum>j<length xs. w (xs ! j - x) + (\<Sum>i<j. w (xs ! j - xs ! i)))"
    by (simp add: sum.lessThan_Suc_shift del: sum.lessThan_Suc)
  also have "\<dots> = (\<Sum>j<length xs. w (xs ! j - x))
                   + (\<Sum>j<length xs. \<Sum>i<j. w (xs ! j - xs ! i))"
    by (simp add: sum.distrib)
  finally show ?case using Cons.IH a by simp
qed

lemma border_weight_cases:
  "lo \<le> hi \<Longrightarrow> hi \<le> lo + 1 \<Longrightarrow>
   border_weight lo hi pl ph d =
     (if d = hi then ph else if d = lo then pl else if d < lo then 1 else 0)"
  by (auto simp: border_weight_def)

lemma border_weight_eq:
  assumes "get_border_probabilities t = (bl, bh, pl, ph)"
  shows "border_weight bl bh pl ph d = violation_weight t d"
proof -
  have bl: "bl = \<lfloor>t\<rfloor>" and bh: "bh = \<lceil>t\<rceil>"
    using assms by (auto simp: get_border_probabilities_def Let_def)
  have ph: "ph = (1/2) * (t - of_int \<lceil>t\<rceil> + 1)\<^sup>2"
    using assms by (auto simp: get_border_probabilities_def Let_def)
  have pl: "pl = (1/2) * (1 - (t - of_int \<lfloor>t\<rfloor>)\<^sup>2) + (t - of_int \<lfloor>t\<rfloor>)
                  - (if \<lfloor>t\<rfloor> = 0 then (1/2) * (1 - t)\<^sup>2 else 0)"
    using assms by (auto simp: get_border_probabilities_def Let_def)
  have le: "bl \<le> bh" and ge: "bh \<le> bl + 1"
    unfolding bl bh by linarith+
  show ?thesis
    unfolding border_weight_cases [OF le ge] violation_weight_def Let_def
    unfolding bl bh ph pl ..
qed

text \<open>When \<open>max_time\<close> is a positive integer its floor and ceiling coincide, and so do the
  two border probabilities: which of the two a difference on the border receives makes
  no difference.\<close>

lemma border_probabilities_integer:
  assumes "0 < t" and "\<lfloor>t\<rfloor> = \<lceil>t\<rceil>"
  shows "get_border_probabilities t = (\<lfloor>t\<rfloor>, \<lfloor>t\<rfloor>, 1/2, 1/2)"
proof -
  have t: "t = of_int \<lfloor>t\<rfloor>" using assms(2) by linarith
  have "\<lfloor>t\<rfloor> \<noteq> 0" using assms(1) t by auto
  then show ?thesis
    using assms(2) t by (simp add: get_border_probabilities_def Let_def)
qed

text \<open>
  \<^bold>\<open>C2.\<close> On a sorted spike train, \<open>compute_nb_violations\<close> returns \<open>0\<close> when
  \<open>max_time \<le> 0\<close>, and otherwise the weighted count of the ordered pairs \<open>i < j\<close>, where a
  difference below the floor of \<open>max_time\<close> counts \<open>1\<close>, a difference equal to its ceiling
  counts \<open>p_high\<close>, a difference equal to its floor counts \<open>p_low\<close> (less
  \<open>0.5 * (1 - max_time)\<^sup>2\<close> when the floor is \<open>0\<close>) and a larger difference counts nothing.
\<close>

theorem compute_nb_violations_weighted_count:
  assumes "sorted train"
  shows "compute_nb_violations train max_time =
     (if max_time \<le> 0 then 0 else weighted_pair_count max_time train)"
proof (cases "max_time \<le> 0")
  case True
  then show ?thesis by (simp add: compute_nb_violations_def)
next
  case False
  obtain bl bh pl ph where g: "get_border_probabilities max_time = (bl, bh, pl, ph)"
    by (cases "get_border_probabilities max_time") auto
  have bw: "border_weight bl bh pl ph = violation_weight max_time"
    by (rule ext) (rule border_weight_eq [OF g])
  have "compute_nb_violations train max_time
          = score pl ph (violations_outer bl bh train (0, 0, 0))"
    using False g by (simp add: compute_nb_violations_def score_def split: prod.splits)
  also have "\<dots> = pair_sum (border_weight bl bh pl ph) train"
    using violations_outer_score [OF assms, of pl ph bl bh "(0, 0, 0)"] by simp
  also have "\<dots> = pair_sum (violation_weight max_time) train"
    by (simp only: bw)
  also have "\<dots> = weighted_pair_count max_time train"
    by (simp add: pair_sum_index weighted_pair_count_def)
  finally show ?thesis using False by simp
qed

theorem compute_nb_violations_weighted_count_witness:
  "sorted [0, 2, 3, 7 :: int] \<and> compute_nb_violations [0, 2, 3, 7] (5/2) = 2
   \<and> weighted_pair_count (5/2) [0, 2, 3, 7] = 2"
  using compute_nb_violations_weighted_count [of "[0, 2, 3, 7]" "5/2"]
  by (simp add: compute_nb_violations_def get_border_probabilities_def Let_def power2_eq_square)

section \<open>Contamination\<close>

subsection \<open>Evaluation on concrete trains\<close>

lemma border_probabilities_30: "get_border_probabilities 30 = (30, 30, 1/2, 1/2)"
  by (simp add: get_border_probabilities_def Let_def)

lemmas eval_defs = estimate_contamination_def compute_nb_violations_def
  border_probabilities_30 Let_def

lemma compute_nb_coincidence_counters:
  assumes "0 < t" and "get_border_probabilities t = (bl, bh, pl, ph)"
    and "coincidence_outer bl bh A B (0, 0, 0, 0) = (start_j, n, nl, nh)"
  shows "compute_nb_coincidence A B t = real n + ph * real nh + pl * real nl"
  using assms by (simp add: compute_nb_coincidence_def)

lemma compute_nb_coincidence_nonpositive: "t \<le> 0 \<Longrightarrow> compute_nb_coincidence A B t = 0"
  by (simp add: compute_nb_coincidence_def)

subsection \<open>The formula\<close>

text \<open>
  \<^bold>\<open>C1.\<close> For a non-empty spike train and a refractory period \<open>(t_c, t_r)\<close> in milliseconds
  with \<open>t_c < t_r\<close> (and a positive sampling frequency), \<open>estimate_contamination\<close> converts
  the period to samples, takes \<open>n_v = compute_nb_violations(train, t_r_samples)\<close>,
  \<open>N = len(train)\<close>, \<open>T = t_max\<close> and
  \<open>D = 1 - n_v * (T - 2*N*t_c) / (N\<^sup>2 * (t_r - t_c))\<close>, and returns \<open>1\<close> if \<open>D < 0\<close> and
  \<open>1 - sqrt D\<close> otherwise. For the train \<open>[0, 50, 100, 150]\<close> with the period \<open>(0, 1)\<close> ms at
  30000 Hz it returns \<open>0\<close>.
\<close>

theorem estimate_contamination_formula:
  "(spike_train \<noteq> [] \<and> t_c < t_r \<and> 0 < sampling_frequency \<longrightarrow>
      estimate_contamination sampling_frequency t_max spike_train (t_c, t_r) =
        Inr (let t_c_samples = t_c * sampling_frequency / 1000;
                 t_r_samples = t_r * sampling_frequency / 1000;
                 n_v = compute_nb_violations spike_train t_r_samples;
                 N = real (length spike_train);
                 D = 1 - n_v * (t_max - 2 * N * t_c_samples) / (N\<^sup>2 * (t_r_samples - t_c_samples))
             in if D < 0 then 1 else 1 - sqrt D))
   \<and> estimate_contamination 30000 t_max [0, 50, 100, 150] (0, 1) = Inr 0"
proof (intro conjI impI)
  assume "spike_train \<noteq> [] \<and> t_c < t_r \<and> 0 < sampling_frequency"
  then show "estimate_contamination sampling_frequency t_max spike_train (t_c, t_r) =
        Inr (let t_c_samples = t_c * sampling_frequency / 1000;
                 t_r_samples = t_r * sampling_frequency / 1000;
                 n_v = compute_nb_violations spike_train t_r_samples;
                 N = real (length spike_train);
                 D = 1 - n_v * (t_max - 2 * N * t_c_samples) / (N\<^sup>2 * (t_r_samples - t_c_samples))
             in if D < 0 then 1 else 1 - sqrt D)"
    by (simp add: estimate_contamination_def Let_def)
next
  show "estimate_contamination 30000 t_max [0, 50, 100, 150] (0, 1) = Inr 0"
    by (simp add: estimate_contamination_def compute_nb_violations_def
          get_border_probabilities_def Let_def)
qed

theorem estimate_contamination_formula_witness:
  "[0, 10, 20 :: int] \<noteq> [] \<and> (1/2 :: real) < 1 \<and> (0 :: real) < 30000
   \<and> compute_nb_violations [0, 10, 20] 30 = 3
   \<and> estimate_contamination 30000 30000 [0, 10, 20] (1/2, 1) = Inr 1"
  using estimate_contamination_formula [of "[0, 10, 20]" "1/2" 1 30000 30000]
  by (simp add: compute_nb_violations_def border_probabilities_30 Let_def)

subsection \<open>The range of the estimate\<close>

lemma border_probabilities_bounds:
  assumes "0 < t" and g: "get_border_probabilities t = (bl, bh, pl, ph)"
  shows "0 \<le> pl \<and> pl \<le> 1 \<and> 0 \<le> ph \<and> ph \<le> 1"
proof -
  define f where "f = t - of_int \<lfloor>t\<rfloor>"
  define h where "h = t - of_int \<lceil>t\<rceil> + 1"
  have f: "0 \<le> f" "f < 1" and h: "0 < h" "h \<le> 1"
    unfolding f_def h_def by linarith+
  have ph: "ph = (1/2) * h\<^sup>2"
    using g by (auto simp: get_border_probabilities_def Let_def h_def)
  have "h\<^sup>2 \<le> 1" using h by (simp add: power_le_one)
  then have ph_b: "0 \<le> ph \<and> ph \<le> 1" unfolding ph by simp
  have sq: "0 \<le> (1 - f)\<^sup>2" "(1 - f)\<^sup>2 \<le> 1"
    using f by (simp_all add: power_le_one)
  show ?thesis
  proof (cases "\<lfloor>t\<rfloor> = 0")
    case True
    then have tf: "t = f" by (simp add: f_def)
    have "pl = (1/2) * (1 - f\<^sup>2) + f - (1/2) * (1 - f)\<^sup>2"
      using g True tf by (auto simp: get_border_probabilities_def Let_def)
    then have "pl = 1 - (1 - f)\<^sup>2"
      by (simp add: power2_eq_square field_simps)
    with sq ph_b show ?thesis by simp
  next
    case False
    have "pl = (1/2) * (1 - f\<^sup>2) + f"
      using g False by (auto simp: get_border_probabilities_def Let_def f_def)
    then have "pl = 1 - (1/2) * (1 - f)\<^sup>2"
      by (simp add: power2_eq_square field_simps)
    with sq ph_b show ?thesis by simp
  qed
qed

lemma violations_inner_total:
  "total (violations_inner bl bh ti rest c) \<le> total c + length rest"
proof (induction rest arbitrary: c)
  case Nil
  then show ?case by simp
next
  case (Cons tj rest)
  obtain n nl nh where c: "c = (n, nl, nh)" by (cases c) auto
  show ?case
    using Cons.IH [of "(n, nl, nh + 1)"] Cons.IH [of "(n, nl + 1, nh)"]
      Cons.IH [of "(n + 1, nl, nh)"]
    by (simp add: c Let_def total_def)
qed

lemma violations_outer_total:
  "2 * total (violations_outer bl bh train c) \<le> 2 * total c + length train * (length train - 1)"
proof (induction bl bh train c rule: violations_outer.induct)
  case (1 bl bh c)
  then show ?case by simp
next
  case (2 bl bh ti c)
  then show ?case by simp
next
  case (3 bl bh ti tj rest c)
  have "2 * total (violations_inner bl bh ti (tj # rest) c) \<le> 2 * total c + 2 * length (tj # rest)"
    using violations_inner_total [of bl bh ti "tj # rest" c] by simp
  with "3.IH" show ?case by (simp add: algebra_simps)
qed

lemma score_bounds:
  assumes "0 \<le> pl" "pl \<le> 1" "0 \<le> ph" "ph \<le> 1"
  shows "0 \<le> score pl ph c \<and> score pl ph c \<le> real (total c)"
proof -
  obtain n nl nh where c: "c = (n, nl, nh)" by (cases c) auto
  have "ph * real nh \<le> 1 * real nh" "pl * real nl \<le> 1 * real nl"
    using assms by (intro mult_right_mono; simp)+
  moreover have "0 \<le> ph * real nh" "0 \<le> pl * real nl" using assms by simp_all
  ultimately show ?thesis by (simp add: c total_def)
qed

lemma compute_nb_violations_bounds:
  "0 \<le> compute_nb_violations train t \<and>
   2 * compute_nb_violations train t \<le> real (length train) * (real (length train) - 1)"
proof (cases "t \<le> 0")
  case True
  have "0 \<le> real (length train) * (real (length train) - 1)"
    by (cases train) simp_all
  with True show ?thesis by (simp add: compute_nb_violations_def)
next
  case False
  obtain bl bh pl ph where g: "get_border_probabilities t = (bl, bh, pl, ph)"
    by (cases "get_border_probabilities t") auto
  have b: "0 \<le> pl" "pl \<le> 1" "0 \<le> ph" "ph \<le> 1"
    using border_probabilities_bounds [OF _ g] False by auto
  let ?c = "violations_outer bl bh train (0, 0, 0)"
  have eq: "compute_nb_violations train t = score pl ph ?c"
    using False g by (simp add: compute_nb_violations_def score_def split: prod.splits)
  have "2 * total ?c \<le> length train * (length train - 1)"
    using violations_outer_total [of bl bh train "(0, 0, 0)"] by (simp add: total_def)
  then have "2 * real (total ?c) \<le> real (length train * (length train - 1))"
    by (metis of_nat_le_iff of_nat_mult of_nat_numeral)
  also have "\<dots> = real (length train) * (real (length train) - 1)"
    by (cases train) (simp_all add: algebra_simps)
  finally have "2 * real (total ?c) \<le> real (length train) * (real (length train) - 1)" .
  with score_bounds [OF b, of ?c] show ?thesis unfolding eq by linarith
qed

lemma estimate_contamination_eq:
  assumes "train \<noteq> []" "sf \<noteq> 0" "fst rp \<noteq> snd rp"
  shows "estimate_contamination sf T train rp =
           Inr (if contamination_D sf T train rp < 0 then 1
                else 1 - sqrt (contamination_D sf T train rp))"
  using assms by (simp add: estimate_contamination_def contamination_D_def Let_def)

lemma contamination_D_le_1:
  assumes "train \<noteq> []" "0 < sf" "fst rp < snd rp"
    and "2 * real (length train) * (fst rp * (1/1000) * sf) \<le> T"
  shows "contamination_D sf T train rp \<le> 1"
proof -
  let ?N = "real (length train)"
  let ?tc = "fst rp * (1/1000) * sf" and ?tr = "snd rp * (1/1000) * sf"
  let ?nv = "compute_nb_violations train ?tr"
  have N: "0 < ?N" using assms(1) by simp
  have d: "0 < ?tr - ?tc" using assms(2,3) by simp
  have den: "0 < ?N\<^sup>2 * (?tr - ?tc)" using N d by simp
  have nv: "0 \<le> ?nv" using compute_nb_violations_bounds by simp
  have "0 \<le> ?nv * (T - 2 * ?N * ?tc)" using nv assms(4) by simp
  then have "0 \<le> ?nv * (T - 2 * ?N * ?tc) / (?N\<^sup>2 * (?tr - ?tc))"
    using den by (rule divide_nonneg_pos)
  then show ?thesis unfolding contamination_D_def Let_def by linarith
qed

lemma estimate_contamination_range:
  assumes "train \<noteq> []" "0 < sf" "fst rp < snd rp"
    and "2 * real (length train) * (fst rp * (1/1000) * sf) \<le> T"
    and "estimate_contamination sf T train rp = Inr C"
  shows "0 \<le> C \<and> C \<le> 1"
proof -
  let ?D = "contamination_D sf T train rp"
  have D: "?D \<le> 1" by (rule contamination_D_le_1 [OF assms(1-4)])
  have C: "C = (if ?D < 0 then 1 else 1 - sqrt ?D)"
    using estimate_contamination_eq [of train sf rp T] assms(1,2,3,5) by simp
  show ?thesis
  proof (cases "?D < 0")
    case True
    with C show ?thesis by simp
  next
    case False
    then have "0 \<le> sqrt ?D" "sqrt ?D \<le> 1" using D by simp_all
    with C False show ?thesis by simp
  qed
qed

text \<open>
  \<^bold>\<open>C6.\<close> The value that \<open>estimate_contamination\<close> returns is claimed to lie in \<open>[0, 1]\<close>.
  It does when \<open>2 * N * t_c \<le> t_max\<close> (lemma \<open>estimate_contamination_range\<close>); beyond, \<open>D\<close>
  exceeds \<open>1\<close> and the function returns a negative number: four spikes on consecutive
  samples of a recording of 100 samples, with the period \<open>(0.5, 1)\<close> ms at 30000 Hz, give
  \<open>1 - sqrt (3/2)\<close>.
\<close>

theorem estimate_contamination_negative:
  "estimate_contamination 30000 100 [0, 1, 2, 3] (1/2, 1) = Inr (1 - sqrt (3/2))
   \<and> 1 - sqrt (3/2) < 0"
  by (simp add: estimate_contamination_def compute_nb_violations_def
        get_border_probabilities_def Let_def)

section \<open>Cross-contamination\<close>

lemma estimate_contamination_one_iff:
  assumes "train \<noteq> []" "sf \<noteq> 0" "fst rp \<noteq> snd rp"
  shows "estimate_contamination sf T train rp = Inr 1 \<longleftrightarrow> contamination_D sf T train rp \<le> 0"
proof -
  let ?D = "contamination_D sf T train rp"
  have "(if ?D < 0 then 1 else 1 - sqrt ?D) = 1 \<longleftrightarrow> ?D \<le> 0"
    by (cases "?D < 0") auto
  then show ?thesis
    unfolding estimate_contamination_eq [OF assms] by simp
qed

lemma duration_exceeds_refractory:
  fixes N v T tc tr :: real
  assumes N: "N = 1 \<or> 2 \<le> N" and v0: "0 \<le> v" and v1: "2 * v \<le> N * (N - 1)"
    and tc: "0 \<le> tc" and tr: "tc < tr"
    and D: "N\<^sup>2 * (tr - tc) \<le> v * (T - 2 * N * tc)"
  shows "2 * tr < T"
proof -
  have Npos: "0 < N" using N by auto
  have pos: "0 < N\<^sup>2 * (tr - tc)" using Npos tr by simp
  then have vT: "0 < v * (T - 2 * N * tc)" using D by linarith
  have Tpos: "0 < T - 2 * N * tc"
    using vT v0 by (simp add: zero_less_mult_iff)
  have "(2 * v) * (T - 2 * N * tc) \<le> (N * (N - 1)) * (T - 2 * N * tc)"
    using v1 Tpos by (intro mult_right_mono) simp_all
  then have a: "2 * (N\<^sup>2 * (tr - tc)) \<le> N * (N - 1) * (T - 2 * N * tc)"
    using D by linarith
  have N2: "2 \<le> N"
  proof (rule ccontr)
    assume "\<not> 2 \<le> N"
    with N have "N = 1" by simp
    with a pos show False by simp
  qed
  have "N * (2 * (N * (tr - tc))) \<le> N * ((N - 1) * (T - 2 * N * tc))"
    using a by (simp add: power2_eq_square algebra_simps)
  then have b: "2 * (N * (tr - tc)) \<le> (N - 1) * (T - 2 * N * tc)"
    using Npos by (simp only: mult_le_cancel_left_pos)
  have "(N - 1) * (T - 2 * N * tc) = (N - 1) * T - 2 * N * (N - 1) * tc"
    by (simp add: algebra_simps)
  with b have "2 * N * tr + 2 * N * (N - 2) * tc \<le> (N - 1) * T"
    by (simp add: algebra_simps)
  moreover have "0 \<le> 2 * N * (N - 2) * tc" using N2 tc by simp
  ultimately have c: "2 * N * tr \<le> (N - 1) * T" by linarith
  have trpos: "0 < tr" using tc tr by simp
  have "(N - 1) * (2 * tr) < 2 * N * tr" using trpos by (simp add: algebra_simps)
  with c have "(N - 1) * (2 * tr) < (N - 1) * T" by linarith
  then show ?thesis using N2 by (simp only: mult_less_cancel_left_pos [of "N - 1"]) 
qed

lemma fully_contaminated_duration:
  assumes "train \<noteq> []" "0 < sf" "0 \<le> fst rp" "fst rp < snd rp"
    and "contamination_D sf T train rp \<le> 0"
  shows "2 * (snd rp * (1/1000) * sf) < T"
proof -
  let ?N = "real (length train)"
  let ?tc = "fst rp * (1/1000) * sf" and ?tr = "snd rp * (1/1000) * sf"
  let ?nv = "compute_nb_violations train ?tr"
  have N: "?N = 1 \<or> 2 \<le> ?N"
    using assms(1) by (cases train; cases "tl train") auto
  have tc: "0 \<le> ?tc" using assms(2,3) by simp
  have tr: "?tc < ?tr" using assms(2,4) by simp
  have den: "0 < ?N\<^sup>2 * (?tr - ?tc)" using assms(1) tr by simp
  have "1 \<le> ?nv * (T - 2 * ?N * ?tc) / (?N\<^sup>2 * (?tr - ?tc))"
    using assms(5) unfolding contamination_D_def Let_def by linarith
  then have D: "?N\<^sup>2 * (?tr - ?tc) \<le> ?nv * (T - 2 * ?N * ?tc)"
    using den by (simp add: pos_le_divide_eq)
  show ?thesis
    using duration_exceeds_refractory [OF N _ _ tc tr D] compute_nb_violations_bounds [of train ?tr]
    by blast
qed

lemma estimate_cross_contamination_eq:
  fixes A B :: "int list"
  defines "N1 \<equiv> real (length A)" and "N2 \<equiv> real (length B)"
  assumes ec: "estimate_contamination sf T A rp = Inr C1"
    and est: "C1 = 1 \<or> 2 * N1 * N2 * (snd rp * (1/1000) * sf) \<noteq> 0"
    and T: "T \<noteq> 0"
    and sq: "N1 * N2 * ((1 - C1) * limit + C1) * (2 * (snd rp * (1/1000) * sf) / T) < 30
             \<or> 0 \<le> N1 * N2 * ((1 - C1) * limit + C1) * (2 * (snd rp * (1/1000) * sf) / T)
                     * (1 - 2 * (snd rp * (1/1000) * sf) / T)"
  shows "estimate_cross_contamination binom_cdf norm_cdf sf T A B rp limit =
     Inr (if C1 = 1 then MinusInfinity
          else Finite (1 - ((cross_violations sf A B rp * T)
                              / (2 * N1 * N2 * (snd rp * (1/1000) * sf)) - 1) / (C1 - 1)),
          let n = N1 * N2 * ((1 - C1) * limit + C1);
              p = 2 * (snd rp * (1/1000) * sf) / T
          in if n * p < 30 then 1 - binom_cdf (cross_violations sf A B rp) n p
             else 1 - norm_cdf (cross_violations sf A B rp) (n * p) (sqrt (n * p * (1 - p))))"
proof (cases "C1 = 1")
  case True
  then show ?thesis
    using ec T sq
    unfolding estimate_cross_contamination_def cross_violations_def Let_def N1_def N2_def
    by (auto simp: not_less)
next
  case False
  with est have "2 * N1 * N2 * (snd rp * (1/1000) * sf) \<noteq> 0" by simp
  then show ?thesis
    using False ec T sq
    unfolding estimate_cross_contamination_def cross_violations_def Let_def N1_def N2_def
    by (auto simp: not_less)
qed

subsection \<open>Concrete trains\<close>

lemma contamination_single_spike:
  "estimate_contamination 30000 30000 [0] (0, 1) = Inr 0"
  by (simp add: eval_defs)

lemma contamination_dense_train:
  "estimate_contamination 30000 30000 [0, 1, 2, 3] (0, 1) = Inr 1"
  by (simp add: eval_defs)

lemma contamination_sparse_train:
  "estimate_contamination 30000 30000 [0, 50, 100, 150] (0, 1) = Inr 0"
  by (simp add: eval_defs)

lemma coincidence_counters_sparse:
  "coincidence_outer 30 30 [0, 50, 100, 150] [10, 500] (0, 0, 0, 0) = (1, 1, 0, 0)"
  by simp

lemma coincidences_sparse: "compute_nb_coincidence [0, 50, 100, 150] [10, 500] 30 = 1"
  using compute_nb_coincidence_counters
    [OF _ border_probabilities_30 coincidence_counters_sparse]
  by simp

lemma contamination_short_recording:
  "estimate_contamination 30000 100 [0, 40] (0, 1) = Inr 0"
  by (simp add: eval_defs)

lemma contamination_clipped_recording: "estimate_contamination 30000 50 [0, 40] (0, 1) = Inr 0"
  by (simp add: eval_defs)

lemma coincidence_counters_clipped:
  "coincidence_outer 30 30 [0, 40] [10, 45] (0, 0, 0, 0) = (0, 2, 0, 1)"
  by simp

text \<open>
  \<^bold>\<open>C3.\<close> The claim: for all trains \<open>A\<close> (non-empty) and \<open>B\<close>, every period with
  \<open>t_c < t_r\<close> and every limit, \<open>estimate_cross_contamination\<close> returns the estimate
  \<open>1 - ((n_violations * T) / (2*N1*N2*t_r) - 1) / (C1 - 1)\<close> when \<open>C1 \<noteq> 1\<close> and \<open>-\<infinity>\<close> when
  \<open>C1 = 1\<close>, without an error in the latter case. With \<open>C1 \<noteq> 1\<close> the function raises
  \<open>ZeroDivisionError\<close> when \<open>B\<close> is empty, and \<open>ValueError\<close> on a recording shorter than
  \<open>2 * t_r\<close> when \<open>n * p\<close> reaches \<open>30\<close>.
\<close>

theorem cross_contamination_raises:
  "estimate_contamination 30000 30000 [0] (0, 1) = Inr 0
   \<and> estimate_cross_contamination cdf_zero cdf_half 30000 30000 [0] [] (0, 1) (3/10)
       = Inl ZeroDivisionError
   \<and> estimate_contamination 30000 50 [0, 40] (0, 1) = Inr 0
   \<and> estimate_cross_contamination cdf_zero cdf_half 30000 50 [0, 40] [10, 45] (0, 1) 20
       = Inl ValueError"
proof -
  have n: "compute_nb_coincidence [0, 40] [10, 45] 30 = 5/2"
    using compute_nb_coincidence_counters
      [OF _ border_probabilities_30 coincidence_counters_clipped]
    by simp
  have "estimate_cross_contamination cdf_zero cdf_half 30000 50 [0, 40] [10, 45] (0, 1) 20
       = Inl ValueError"
    by (simp add: estimate_cross_contamination_def contamination_clipped_recording n
          compute_nb_coincidence_nonpositive)
  moreover have "estimate_cross_contamination cdf_zero cdf_half 30000 30000 [0] [] (0, 1) (3/10)
       = Inl ZeroDivisionError"
    by (simp add: estimate_cross_contamination_def contamination_single_spike)
  ultimately show ?thesis
    using contamination_clipped_recording contamination_single_spike by simp
qed

text \<open>
  \<^bold>\<open>C3, as amended.\<close> For a non-empty \<open>A\<close>, a positive sampling frequency and
  \<open>0 \<le> t_c < t_r\<close>: \<open>C1 = estimate_contamination(A, (t_c, t_r))\<close> is computed; when
  \<open>C1 = 1\<close> the function returns the estimate \<open>-\<infinity>\<close> and raises nothing, whatever \<open>B\<close> and
  \<open>t_max\<close>; when \<open>C1 \<noteq> 1\<close>, \<open>B\<close> is non-empty and \<open>t_max\<close> is at least \<open>2 * t_r\<close> in samples,
  it returns the estimate \<open>1 - ((n_violations * T) / (2*N1*N2*t_r) - 1) / (C1 - 1)\<close> with
  \<open>n_violations\<close> the coincidences within \<open>t_r\<close> less those within \<open>t_c\<close>.
\<close>

theorem cross_contamination_estimate:
  fixes A B :: "int list"
  assumes "A \<noteq> []" and "0 < sf" and "0 \<le> t_c" and "t_c < t_r"
  shows "\<exists>C1. estimate_contamination sf T A (t_c, t_r) = Inr C1 \<and>
     (C1 = 1 \<longrightarrow>
        (\<exists>p_value. estimate_cross_contamination binom_cdf norm_cdf sf T A B (t_c, t_r) limit
                      = Inr (MinusInfinity, p_value))) \<and>
     (C1 \<noteq> 1 \<and> B \<noteq> [] \<and> 2 * (t_r * sf / 1000) \<le> T \<longrightarrow>
        (\<exists>p_value. estimate_cross_contamination binom_cdf norm_cdf sf T A B (t_c, t_r) limit
                      = Inr (Finite
                              (let t_c_samples = t_c * sf / 1000;
                                   t_r_samples = t_r * sf / 1000;
                                   n_violations = compute_nb_coincidence A B t_r_samples
                                                  - compute_nb_coincidence A B t_c_samples;
                                   N1 = real (length A);
                                   N2 = real (length B)
                               in 1 - ((n_violations * T) / (2 * N1 * N2 * t_r_samples) - 1)
                                        / (C1 - 1)),
                             p_value)))"
proof -
  let ?rp = "(t_c, t_r)"
  let ?tr = "snd ?rp * (1/1000) * sf"
  let ?N1 = "real (length A)" and ?N2 = "real (length B)"
  have ne: "sf \<noteq> 0" "fst ?rp \<noteq> snd ?rp" using assms by simp_all
  obtain C1 where ec: "estimate_contamination sf T A ?rp = Inr C1"
    using estimate_contamination_eq [OF assms(1) ne] by simp
  have trpos: "0 < ?tr" using assms by simp
  have N1: "0 < ?N1" using assms(1) by simp
  have one: "\<exists>p_value. estimate_cross_contamination binom_cdf norm_cdf sf T A B ?rp limit
                      = Inr (MinusInfinity, p_value)" if C: "C1 = 1"
  proof -
    have "contamination_D sf T A ?rp \<le> 0"
      using estimate_contamination_one_iff [OF assms(1) ne, of T] ec C by simp
    then have lt: "2 * ?tr < T"
      using fully_contaminated_duration [of A sf ?rp T] assms by simp
    then have T: "0 < T" using trpos by linarith
    have p: "0 \<le> 2 * ?tr / T" "0 \<le> 1 - 2 * ?tr / T"
      using lt T trpos by (simp_all add: field_simps)
    have "0 \<le> ?N1 * ?N2 * ((1 - C1) * limit + C1) * (2 * ?tr / T) * (1 - 2 * ?tr / T)"
      using p C by (intro mult_nonneg_nonneg) simp_all
    then show ?thesis
      using estimate_cross_contamination_eq [OF ec, of B limit binom_cdf norm_cdf] C T
      by simp
  qed
  have other: "\<exists>p_value. estimate_cross_contamination binom_cdf norm_cdf sf T A B ?rp limit
       = Inr (Finite (1 - ((cross_violations sf A B ?rp * T) / (2 * ?N1 * ?N2 * ?tr) - 1) / (C1 - 1)),
              p_value)"
    if C: "C1 \<noteq> 1" and B: "B \<noteq> []" and le: "2 * (t_r * sf / 1000) \<le> T"
  proof -
    have "0 < t_r * sf / 1000" using assms by simp
    with le have T: "0 < T" by linarith
    have N2: "0 < ?N2" using B by simp
    have "0 < 2 * ?N1 * ?N2 * ?tr" by (intro mult_pos_pos N1 N2 trpos) simp
    then have d: "2 * ?N1 * ?N2 * ?tr \<noteq> 0" by linarith
    have p: "0 < 2 * ?tr / T" "0 \<le> 1 - 2 * ?tr / T"
      using le T trpos by (simp_all add: field_simps)
    let ?np = "?N1 * ?N2 * ((1 - C1) * limit + C1) * (2 * ?tr / T)"
    have "?np < 30 \<or> 0 \<le> ?np * (1 - 2 * ?tr / T)"
    proof (cases "?np < 30")
      case True
      then show ?thesis by (rule disjI1)
    next
      case False
      then have "0 \<le> ?np" by linarith
      then have "0 \<le> ?np * (1 - 2 * ?tr / T)" using p(2) by (rule mult_nonneg_nonneg)
      then show ?thesis by (rule disjI2)
    qed
    then show ?thesis
      using estimate_cross_contamination_eq [OF ec, of B limit binom_cdf norm_cdf] C T d
      by simp
  qed
  show ?thesis
  proof (rule exI [of _ C1], intro conjI impI)
    show "estimate_contamination sf T A ?rp = Inr C1" by (rule ec)
  next
    assume "C1 = 1"
    then show "\<exists>p_value. estimate_cross_contamination binom_cdf norm_cdf sf T A B ?rp limit
                      = Inr (MinusInfinity, p_value)" by (rule one)
  next
    assume a: "C1 \<noteq> 1 \<and> B \<noteq> [] \<and> 2 * (t_r * sf / 1000) \<le> T"
    then show "\<exists>p_value. estimate_cross_contamination binom_cdf norm_cdf sf T A B (t_c, t_r) limit
                      = Inr (Finite
                              (let t_c_samples = t_c * sf / 1000;
                                   t_r_samples = t_r * sf / 1000;
                                   n_violations = compute_nb_coincidence A B t_r_samples
                                                  - compute_nb_coincidence A B t_c_samples;
                                   N1 = real (length A);
                                   N2 = real (length B)
                               in 1 - ((n_violations * T) / (2 * N1 * N2 * t_r_samples) - 1)
                                        / (C1 - 1)),
                             p_value)"
      using other by (simp add: cross_violations_def Let_def)
  qed
qed

theorem cross_contamination_estimate_witness:
  "estimate_contamination 30000 30000 [0, 1, 2, 3] (0, 1) = Inr 1
   \<and> (\<exists>p_value. estimate_cross_contamination cdf_zero cdf_half 30000 30000
                    [0, 1, 2, 3] [1, 40] (0, 1) (3/10) = Inr (MinusInfinity, p_value))
   \<and> estimate_contamination 30000 30000 [0, 50, 100, 150] (0, 1) = Inr 0
   \<and> (\<exists>p_value. estimate_cross_contamination cdf_zero cdf_half 30000 30000
                    [0, 50, 100, 150] [10, 500] (0, 1) (3/10) = Inr (Finite (125/2), p_value))"
proof -
  have w1: "\<exists>p_value. estimate_cross_contamination cdf_zero cdf_half 30000 30000
                    [0, 1, 2, 3] [1, 40] (0, 1) (3/10) = Inr (MinusInfinity, p_value)"
    using cross_contamination_estimate
        [of "[0, 1, 2, 3]" 30000 0 1 30000 cdf_zero cdf_half "[1, 40]" "3/10"]
      contamination_dense_train
    by simp
  have w2: "\<exists>p_value. estimate_cross_contamination cdf_zero cdf_half 30000 30000
                    [0, 50, 100, 150] [10, 500] (0, 1) (3/10) = Inr (Finite (125/2), p_value)"
    using cross_contamination_estimate
        [of "[0, 50, 100, 150]" 30000 0 1 30000 cdf_zero cdf_half "[10, 500]" "3/10"]
      contamination_sparse_train
    by (simp add: Let_def coincidences_sparse compute_nb_coincidence_nonpositive)
  from contamination_dense_train w1 contamination_sparse_train w2 show ?thesis by blast
qed

lemma cross_contamination_p_value_domain:
  fixes A B :: "int list"
  assumes "A \<noteq> []" and "B \<noteq> []" and "0 < sf" and "0 \<le> t_c" and "t_c < t_r"
    and "2 * (t_r * sf / 1000) \<le> T"
  shows "\<exists>C1 estimation.
     estimate_contamination sf T A (t_c, t_r) = Inr C1 \<and>
     estimate_cross_contamination binom_cdf norm_cdf sf T A B (t_c, t_r) limit =
       Inr (estimation,
            let t_c_samples = t_c * sf / 1000;
                t_r_samples = t_r * sf / 1000;
                n_violations = compute_nb_coincidence A B t_r_samples
                               - compute_nb_coincidence A B t_c_samples;
                n = real (length A) * real (length B) * ((1 - C1) * limit + C1);
                p = 2 * t_r_samples / T
            in if n * p < 30 then 1 - binom_cdf n_violations n p
               else 1 - norm_cdf n_violations (n * p) (sqrt (n * p * (1 - p))))"
proof -
  let ?rp = "(t_c, t_r)"
  let ?tr = "snd ?rp * (1/1000) * sf"
  let ?N1 = "real (length A)" and ?N2 = "real (length B)"
  have ne: "sf \<noteq> 0" "fst ?rp \<noteq> snd ?rp" using assms by simp_all
  obtain C1 where ec: "estimate_contamination sf T A ?rp = Inr C1"
    using estimate_contamination_eq [OF assms(1) ne] by simp
  have trpos: "0 < ?tr" using assms by simp
  have "0 < t_r * sf / 1000" using assms by simp
  with assms(6) have T: "0 < T" by linarith
  have N: "0 < ?N1" "0 < ?N2" using assms(1,2) by simp_all
  have "0 < 2 * ?N1 * ?N2 * ?tr" by (intro mult_pos_pos N trpos) simp
  then have d: "2 * ?N1 * ?N2 * ?tr \<noteq> 0" by linarith
  have p: "0 \<le> 1 - 2 * ?tr / T"
    using assms(6) T by (simp add: field_simps)
  let ?np = "?N1 * ?N2 * ((1 - C1) * limit + C1) * (2 * ?tr / T)"
  have sq: "?np < 30 \<or> 0 \<le> ?np * (1 - 2 * ?tr / T)"
  proof (cases "?np < 30")
    case True
    then show ?thesis by (rule disjI1)
  next
    case False
    then have "0 \<le> ?np" by linarith
    then have "0 \<le> ?np * (1 - 2 * ?tr / T)" using p by (rule mult_nonneg_nonneg)
    then show ?thesis by (rule disjI2)
  qed
  show ?thesis
    using estimate_cross_contamination_eq [OF ec, of B limit binom_cdf norm_cdf] ec T d sq
    by (simp add: cross_violations_def Let_def)
qed

lemma cross_contamination_p_value_returned:
  assumes "estimate_cross_contamination binom_cdf norm_cdf sf T A B (t_c, t_r) limit
             = Inr (estimation, p_value)"
  shows "\<exists>C1. estimate_contamination sf T A (t_c, t_r) = Inr C1 \<and>
     p_value =
       (let t_c_samples = t_c * sf / 1000;
            t_r_samples = t_r * sf / 1000;
            n_violations = compute_nb_coincidence A B t_r_samples
                           - compute_nb_coincidence A B t_c_samples;
            n = real (length A) * real (length B) * ((1 - C1) * limit + C1);
            p = 2 * t_r_samples / T
        in if n * p < 30 then 1 - binom_cdf n_violations n p
           else 1 - norm_cdf n_violations (n * p) (sqrt (n * p * (1 - p))))"
proof (cases "estimate_contamination sf T A (t_c, t_r)")
  case (Inl e)
  with assms show ?thesis by (simp add: estimate_cross_contamination_def Let_def)
next
  case (Inr C1)
  with assms show ?thesis
    unfolding estimate_cross_contamination_def Let_def
    by (simp split: if_splits)
qed

text \<open>
  \<^bold>\<open>C4.\<close> With \<open>n = N1 * N2 * ((1 - C1) * limit + C1)\<close> and \<open>p = 2 * t_r / T\<close> (\<open>t_r\<close> in
  samples), the p-value that \<open>estimate_cross_contamination\<close> returns is
  \<open>1 - binom_cdf(n_violations, n, p)\<close> if \<open>n * p < 30\<close> and
  \<open>1 - norm_cdf(n_violations, n*p, sqrt(n*p*(1-p)))\<close> otherwise; and the function does
  return for non-empty trains, \<open>0 \<le> t_c < t_r\<close> and a recording of at least \<open>2 * t_r\<close>.
\<close>

theorem cross_contamination_p_value:
  fixes A B :: "int list"
  shows "(estimate_cross_contamination binom_cdf norm_cdf sf T A B (t_c, t_r) limit
            = Inr (estimation, p_value) \<longrightarrow>
          (\<exists>C1. estimate_contamination sf T A (t_c, t_r) = Inr C1 \<and>
             p_value =
               (let t_c_samples = t_c * sf / 1000;
                    t_r_samples = t_r * sf / 1000;
                    n_violations = compute_nb_coincidence A B t_r_samples
                                   - compute_nb_coincidence A B t_c_samples;
                    n = real (length A) * real (length B) * ((1 - C1) * limit + C1);
                    p = 2 * t_r_samples / T
                in if n * p < 30 then 1 - binom_cdf n_violations n p
                   else 1 - norm_cdf n_violations (n * p) (sqrt (n * p * (1 - p))))))
       \<and> (A \<noteq> [] \<and> B \<noteq> [] \<and> 0 < sf \<and> 0 \<le> t_c \<and> t_c < t_r \<and> 2 * (t_r * sf / 1000) \<le> T \<longrightarrow>
          (\<exists>estimation p_value.
             estimate_cross_contamination binom_cdf norm_cdf sf T A B (t_c, t_r) limit
               = Inr (estimation, p_value)))"
proof (intro conjI impI)
  assume "estimate_cross_contamination binom_cdf norm_cdf sf T A B (t_c, t_r) limit
            = Inr (estimation, p_value)"
  then show "\<exists>C1. estimate_contamination sf T A (t_c, t_r) = Inr C1 \<and>
             p_value =
               (let t_c_samples = t_c * sf / 1000;
                    t_r_samples = t_r * sf / 1000;
                    n_violations = compute_nb_coincidence A B t_r_samples
                                   - compute_nb_coincidence A B t_c_samples;
                    n = real (length A) * real (length B) * ((1 - C1) * limit + C1);
                    p = 2 * t_r_samples / T
                in if n * p < 30 then 1 - binom_cdf n_violations n p
                   else 1 - norm_cdf n_violations (n * p) (sqrt (n * p * (1 - p))))"
    by (rule cross_contamination_p_value_returned)
next
  assume "A \<noteq> [] \<and> B \<noteq> [] \<and> 0 < sf \<and> 0 \<le> t_c \<and> t_c < t_r \<and> 2 * (t_r * sf / 1000) \<le> T"
  then show "\<exists>estimation p_value.
             estimate_cross_contamination binom_cdf norm_cdf sf T A B (t_c, t_r) limit
               = Inr (estimation, p_value)"
    using cross_contamination_p_value_domain [of A B sf t_c t_r T binom_cdf norm_cdf limit]
    by auto
qed

theorem cross_contamination_p_value_witness:
  "(\<exists>estimation. estimate_cross_contamination cdf_zero cdf_half 30000 30000
       [0, 50, 100, 150] [10, 500] (0, 1) (3/10) = Inr (estimation, 1))
   \<and> (\<exists>estimation. estimate_cross_contamination cdf_zero cdf_half 30000 100
       [0, 40] [10, 90] (0, 1) 20 = Inr (estimation, 1/2))"
proof -
  note t = cross_contamination_p_value
  obtain e1 p1 where r1: "estimate_cross_contamination cdf_zero cdf_half 30000 30000
       [0, 50, 100, 150] [10, 500] (0, 1) (3/10) = Inr (e1, p1)"
    using t [THEN conjunct2,
        of "[0, 50, 100, 150]" "[10, 500]" 30000 0 1 30000 cdf_zero cdf_half "3/10"]
    by auto
  have "p1 = 1"
    using t [THEN conjunct1, rule_format, OF r1] contamination_sparse_train
    by (auto simp: Let_def cdf_zero_def)
  obtain e2 p2 where r2: "estimate_cross_contamination cdf_zero cdf_half 30000 100
       [0, 40] [10, 90] (0, 1) 20 = Inr (e2, p2)"
    using t [THEN conjunct2, of "[0, 40]" "[10, 90]" 30000 0 1 100 cdf_zero cdf_half 20]
    by auto
  have "p2 = 1/2"
    using t [THEN conjunct1, rule_format, OF r2] contamination_short_recording
    by (auto simp: Let_def cdf_half_def)
  from r1 r2 \<open>p1 = 1\<close> \<open>p2 = 1/2\<close> show ?thesis by blast
qed

section \<open>Coincidences: the sweep against the count over all pairs\<close>

lemma add_counters_zero [simp]: "add_counters c (0, 0, 0) = c" "add_counters (0, 0, 0) c = c"
  by (cases c; simp)+

lemma add_counters_assoc: "add_counters (add_counters a b) c = add_counters a (add_counters b c)"
  by (cases a; cases b; cases c; simp)

lemma add_counters_commute: "add_counters a b = add_counters b a"
  by (cases a; cases b; simp)

lemma class_total_far_right:
  "\<forall>x\<in>set rest. ti - x < - bh \<Longrightarrow> class_total bl bh ti rest = (0, 0, 0)"
  by (induction rest) (auto simp: border_class_def)

lemma class_total_far_left:
  "\<forall>x\<in>set rest. ti - x > bh \<Longrightarrow> class_total bl bh ti rest = (0, 0, 0)"
  by (induction rest) (auto simp: border_class_def)

lemma class_total_append:
  "class_total bl bh ti (xs @ ys) = add_counters (class_total bl bh ti xs) (class_total bl bh ti ys)"
  by (induction xs) (auto simp: add_counters_assoc)

lemma coincidence_inner_sorted:
  assumes "sorted rest" "0 \<le> bh"
  shows "coincidence_inner bl bh ti rest (start_j, c) =
           (start_j + length (takeWhile (\<lambda>tj. ti - tj > bh) rest),
            add_counters c (class_total bl bh ti rest))"
  using assms
proof (induction rest arbitrary: start_j c)
  case Nil
  then show ?case by simp
next
  case (Cons tj rest)
  obtain n nl nh where c: "c = (n, nl, nh)" by (cases c) auto
  from Cons.prems have srt: "sorted rest" and ge: "\<forall>x\<in>set rest. tj \<le> x" by auto
  consider (skip) "ti - tj > bh" | (brk) "\<not> ti - tj > bh" "ti - tj < - bh"
    | (cnt) "\<not> ti - tj > bh" "\<not> ti - tj < - bh" by blast
  then show ?case
  proof cases
    case skip
    then show ?thesis
      using Cons.IH [OF srt \<open>0 \<le> bh\<close>, of "start_j + 1" c]
      by (simp add: c border_class_def)
  next
    case brk
    have "\<forall>x\<in>set (tj # rest). ti - x < - bh" using brk ge by auto
    then have "class_total bl bh ti (tj # rest) = (0, 0, 0)"
      by (rule class_total_far_right)
    with brk show ?thesis by (simp add: c del: class_total.simps)
  next
    case cnt
    have tw: "takeWhile (\<lambda>tj. ti - tj > bh) rest = []"
      using cnt ge by (cases rest) auto
    obtain c' where c': "add_counters c (border_class bl bh (ti - tj)) = c'" by simp
    show ?thesis
      using cnt Cons.IH [OF srt \<open>0 \<le> bh\<close>] tw
      by (cases "class_total bl bh ti rest") (auto simp: c border_class_def Let_def)
  qed
qed

lemma coincidence_outer_sorted:
  assumes "sorted st1" "sorted st2" "0 \<le> bh"
    and "\<forall>x\<in>set (take start_j st2). \<forall>ti\<in>set st1. ti - x > bh"
  shows "snd (coincidence_outer bl bh st1 st2 (start_j, c)) =
           add_counters c (all_pairs_total bl bh st1 st2)"
  using assms
proof (induction st1 arbitrary: start_j c)
  case Nil
  then show ?case by simp
next
  case (Cons ti rest)
  let ?P = "\<lambda>tj. ti - tj > bh"
  let ?s' = "start_j + length (takeWhile ?P (drop start_j st2))"
  have sd: "sorted (drop start_j st2)" using Cons.prems(2) by (simp add: sorted_wrt_drop)
  have inner: "coincidence_inner bl bh ti (drop start_j st2) (start_j, c) =
      (?s', add_counters c (class_total bl bh ti (drop start_j st2)))"
    by (rule coincidence_inner_sorted [OF sd Cons.prems(3)])
  have tk: "take ?s' st2 = take start_j st2 @ takeWhile ?P (drop start_j st2)"
    by (metis append_eq_conv_conj length_takeWhile_le take_add takeWhile_eq_take take_all_iff) 
  have left0: "class_total bl bh ti (take start_j st2) = (0, 0, 0)"
    using Cons.prems(4) by (intro class_total_far_left) auto
  have full: "class_total bl bh ti st2 = class_total bl bh ti (drop start_j st2)"
    using class_total_append [of bl bh ti "take start_j st2" "drop start_j st2"] left0 by simp
  have inv: "\<forall>x\<in>set (take ?s' st2). \<forall>t\<in>set rest. t - x > bh"
  proof (intro ballI)
    fix x t assume x: "x \<in> set (take ?s' st2)" and t: "t \<in> set rest"
    from Cons.prems(1) t have "ti \<le> t" by auto
    from x tk have "x \<in> set (take start_j st2) \<or> x \<in> set (takeWhile ?P (drop start_j st2))" by auto
    then have "ti - x > bh"
      using Cons.prems(4) by (auto dest: set_takeWhileD)
    with \<open>ti \<le> t\<close> show "t - x > bh" by simp
  qed
  from Cons.prems(1) have sr: "sorted rest" by simp
  show ?case
    using Cons.IH [OF sr Cons.prems(2,3) inv] inner full
    by (simp add: add_counters_assoc)
qed


lemma add_counters_left_commute:
  "add_counters a (add_counters b c) = add_counters b (add_counters a c)"
  by (cases a; cases b; cases c; simp)

lemmas add_counters_ac = add_counters_assoc add_counters_commute add_counters_left_commute

lemma border_class_minus: "border_class bl bh (- d) = border_class bl bh d"
  by (auto simp: border_class_def)

lemma class_total_Cons_swap:
  "all_pairs_total bl bh A (b # B) =
     add_counters (class_total bl bh b A) (all_pairs_total bl bh A B)"
proof (induction A)
  case Nil
  then show ?case by simp
next
  case (Cons a A)
  have "border_class bl bh (b - a) = border_class bl bh (a - b)"
    using border_class_minus [of bl bh "a - b"] by simp
  with Cons show ?case by (simp add: add_counters_ac)
qed

lemma all_pairs_total_Nil: "all_pairs_total bl bh A [] = (0, 0, 0)"
  by (induction A) simp_all

lemma all_pairs_total_sym: "all_pairs_total bl bh A B = all_pairs_total bl bh B A"
proof (induction B)
  case Nil
  then show ?case by (simp add: all_pairs_total_Nil)
next
  case (Cons b B)
  then show ?case by (simp add: class_total_Cons_swap)
qed

lemma coincidence_outer_all_pairs:
  assumes "sorted A" "sorted B" "0 \<le> bh"
  shows "snd (coincidence_outer bl bh A B (0, 0, 0, 0)) = all_pairs_total bl bh A B"
  using coincidence_outer_sorted [OF assms, of 0 bl "(0, 0, 0)"] by simp

lemma compute_nb_coincidence_all_pairs:
  assumes "sorted A" "sorted B" "0 < t"
    and g: "get_border_probabilities t = (bl, bh, pl, ph)"
  shows "compute_nb_coincidence A B t = score pl ph (all_pairs_total bl bh A B)"
proof -
  have "bh = \<lceil>t\<rceil>" using g by (auto simp: get_border_probabilities_def Let_def)
  then have bh: "0 \<le> bh" using assms(3) by (simp add: ceiling_le_iff [symmetric] less_imp_le)
  obtain s c where o: "coincidence_outer bl bh A B (0, 0, 0, 0) = (s, c)"
    by (cases "coincidence_outer bl bh A B (0, 0, 0, 0)") auto
  then have "c = all_pairs_total bl bh A B"
    using coincidence_outer_all_pairs [OF assms(1,2) bh, of bl] by simp
  then show ?thesis
    using assms(3) g o by (simp add: compute_nb_coincidence_def score_def split: prod.splits)
qed

text \<open>
  \<^bold>\<open>C5.\<close> For sorted spike trains \<open>A\<close> and \<open>B\<close> and every window \<open>w\<close>,
  \<open>compute_nb_coincidence(A, B, w) = compute_nb_coincidence(B, A, w)\<close>: on sorted trains the
  sweep, which advances \<open>start_j\<close> in the second train only, counts every pair of spikes
  by the absolute value of its difference.
\<close>

theorem compute_nb_coincidence_symmetric:
  assumes "sorted A" and "sorted B"
  shows "compute_nb_coincidence A B w = compute_nb_coincidence B A w"
proof (cases "w \<le> 0")
  case True
  then show ?thesis by (simp add: compute_nb_coincidence_def)
next
  case False
  obtain bl bh pl ph where g: "get_border_probabilities w = (bl, bh, pl, ph)"
    by (cases "get_border_probabilities w") auto
  from False have w: "0 < w" by simp
  show ?thesis
    unfolding compute_nb_coincidence_all_pairs [OF assms w g]
      compute_nb_coincidence_all_pairs [OF assms(2,1) w g]
    by (simp only: all_pairs_total_sym [of bl bh A B])
qed

lemma border_probabilities_5_2: "get_border_probabilities (5/2) = (2, 3, 7/8, 1/8)"
  by (simp add: get_border_probabilities_def Let_def power2_eq_square)

theorem compute_nb_coincidence_symmetric_witness:
  "sorted [0, 3, 5 :: int] \<and> sorted [1, 3, 10 :: int]
   \<and> compute_nb_coincidence [0, 3, 5] [1, 3, 10] (5/2) = 31/8
   \<and> compute_nb_coincidence [1, 3, 10] [0, 3, 5] (5/2) = 31/8"
proof -
  have c: "coincidence_outer 2 3 [0, 3, 5] [1, 3, 10] (0, 0, 0, 0) = (1, 2, 2, 1)"
    by simp
  have l: "compute_nb_coincidence [0, 3, 5] [1, 3, 10] (5/2) = 31/8"
    using compute_nb_coincidence_counters [OF _ border_probabilities_5_2 c] by simp
  have s: "sorted [0, 3, 5 :: int]" "sorted [1, 3, 10 :: int]" by simp_all
  from compute_nb_coincidence_symmetric [OF s, of "5/2"] l s show ?thesis by simp
qed

lemma gaps_sorted_wrt:
  assumes "\<forall>g\<in>set (inter_spike_gaps A). bh < g" and "0 \<le> bh"
  shows "sorted_wrt (\<lambda>a b. bh < b - a) A"
  using assms(1)
proof (induction A)
  case Nil
  then show ?case by simp
next
  case (Cons a A)
  show ?case
  proof (cases A)
    case Nil
    then show ?thesis by simp
  next
    case (Cons b A')
    from Cons.prems Cons have ab: "bh < b - a"
      and rest: "\<forall>g\<in>set (inter_spike_gaps A). bh < g"
      by (simp_all add: inter_spike_gaps_def)
    have sw: "sorted_wrt (\<lambda>a b. bh < b - a) A" by (rule Cons.IH [OF rest])
    then have "\<forall>x\<in>set A'. bh < x - b" using Cons by simp
    then have "\<forall>x\<in>set A. bh < x - a" using ab assms(2) Cons by auto
    with sw show ?thesis by simp
  qed
qed

lemma sorted_wrt_gap_isolated:
  assumes "sorted_wrt (\<lambda>a b. bh < b - a) A" and "0 \<le> (bh :: int)"
  shows "distinct A \<and> (\<forall>x\<in>set A. \<forall>y\<in>set A. x = y \<or> bh < \<bar>x - y\<bar>)"
  using assms(1)
proof (induction A)
  case Nil
  then show ?case by simp
next
  case (Cons a A)
  then have far: "\<forall>x\<in>set A. bh < x - a" and IH: "distinct A"
    "\<forall>x\<in>set A. \<forall>y\<in>set A. x = y \<or> bh < \<bar>x - y\<bar>" by auto
  from far assms(2) have "a \<notin> set A" by auto
  moreover have "\<forall>x\<in>set A. bh < \<bar>a - x\<bar> \<and> bh < \<bar>x - a\<bar>" using far by auto
  ultimately show ?case using IH by auto
qed

lemma class_total_isolated:
  assumes "1 \<le> bl" "bl \<le> bh" and "\<forall>x\<in>set B. x = a \<or> bh < \<bar>a - x\<bar>"
  shows "class_total bl bh a B = (count_list B a, 0, 0)"
  using assms(3)
proof (induction B)
  case Nil
  then show ?case by simp
next
  case (Cons x B)
  then have IH: "class_total bl bh a B = (count_list B a, 0, 0)" by simp
  show ?case
  proof (cases "x = a")
    case True
    have "border_class bl bh 0 = (1, 0, 0)"
      using assms(1,2) by (simp add: border_class_def)
    with True IH show ?thesis by simp
  next
    case False
    with Cons.prems have "bh < \<bar>a - x\<bar>" by simp
    then have "border_class bl bh (a - x) = (0, 0, 0)"
      by (auto simp: border_class_def)
    with False IH show ?thesis by simp
  qed
qed

lemma count_list_distinct: "distinct B \<Longrightarrow> a \<in> set B \<Longrightarrow> count_list B a = 1"
  by (induction B) auto

lemma all_pairs_total_isolated:
  assumes "1 \<le> bl" "bl \<le> bh" "distinct B"
    and iso: "\<forall>x\<in>set B. \<forall>y\<in>set B. x = y \<or> bh < \<bar>x - y\<bar>"
    and "set A \<subseteq> set B"
  shows "all_pairs_total bl bh A B = (length A, 0, 0)"
  using assms(5)
proof (induction A)
  case Nil
  then show ?case by simp
next
  case (Cons a A)
  then have a: "a \<in> set B" and IH: "all_pairs_total bl bh A B = (length A, 0, 0)" by auto
  have "\<forall>x\<in>set B. x = a \<or> bh < \<bar>a - x\<bar>" using iso a by auto
  then have "class_total bl bh a B = (count_list B a, 0, 0)"
    by (rule class_total_isolated [OF assms(1,2)])
  moreover have "count_list B a = 1"
    using assms(3) a by (rule count_list_distinct)
  ultimately show ?case using IH by simp
qed

text \<open>
  \<^bold>\<open>C7, as amended.\<close> For a spike train \<open>A\<close> and a window \<open>w \<ge> 1\<close> whose ceiling is below
  every gap between consecutive spikes of \<open>A\<close>, \<open>compute_nb_coincidence(A, A, w)\<close> is
  \<open>len(A)\<close>: only the pairs of a spike with itself are counted, each once.
\<close>

theorem compute_nb_coincidence_self:
  assumes "1 \<le> w" and "\<forall>g\<in>set (inter_spike_gaps A). \<lceil>w\<rceil> < g"
  shows "compute_nb_coincidence A A w = real (length A)"
proof -
  obtain bl bh pl ph where g: "get_border_probabilities w = (bl, bh, pl, ph)"
    by (cases "get_border_probabilities w") auto
  have bl: "bl = \<lfloor>w\<rfloor>" and bh: "bh = \<lceil>w\<rceil>"
    using g by (auto simp: get_border_probabilities_def Let_def)
  have b1: "1 \<le> bl" unfolding bl using assms(1) by linarith
  have b2: "bl \<le> bh" unfolding bl bh by linarith
  have b0: "0 \<le> bh" using b1 b2 by simp
  have sw: "sorted_wrt (\<lambda>a b. bh < b - a) A"
    using gaps_sorted_wrt [of A bh] assms(2) b0 unfolding bh by simp
  have "sorted_wrt (\<le>) A"
    by (rule sorted_wrt_mono_rel [OF _ sw]) (use b0 in auto)
  then have srt: "sorted A" by simp
  have w: "0 < w" using assms(1) by simp
  from sorted_wrt_gap_isolated [OF sw b0]
  have "all_pairs_total bl bh A A = (length A, 0, 0)"
    by (intro all_pairs_total_isolated [OF b1 b2]) auto
  then show ?thesis
    unfolding compute_nb_coincidence_all_pairs [OF srt srt w g] by simp
qed

theorem compute_nb_coincidence_self_witness:
  "(1::real) \<le> 7/2 \<and> inter_spike_gaps [0, 5, 12] = [5, 7] \<and> \<lceil>7/2 :: real\<rceil> = 4
   \<and> compute_nb_coincidence [0, 5, 12] [0, 5, 12] (7/2) = 3"
  using compute_nb_coincidence_self [of "7/2" "[0, 5, 12]"]
  by (simp add: inter_spike_gaps_def)

lemma border_probabilities_1_2: "get_border_probabilities (1/2) = (0, 1, 3/4, 1/8)"
proof -
  have "\<lceil>1/2 :: real\<rceil> = 1" by (rule ceiling_unique) simp_all
  then show ?thesis
    by (simp add: get_border_probabilities_def Let_def power2_eq_square)
qed

text \<open>
  \<^bold>\<open>C7.\<close> The claim: for every window \<open>w\<close> below the smallest gap of \<open>A\<close>,
  \<open>compute_nb_coincidence(A, A, w) = len(A)\<close>. The border probabilities make it false for
  a window whose ceiling is a gap of the train (\<open>w = 2.5\<close> and the gap \<open>3\<close>: the pairs of
  neighbours count \<open>p_high\<close> each) and for a window below one sample (\<open>w = 0.5\<close>: a spike
  and itself count \<open>p_low < 1\<close>).
\<close>

theorem compute_nb_coincidence_self_fractional:
  "inter_spike_gaps [0, 3] = [3] \<and> (5/2 :: real) < 3
   \<and> compute_nb_coincidence [0, 3] [0, 3] (5/2) = 9/4
   \<and> compute_nb_coincidence [0, 3] [0, 3] (1/2) = 3/2
   \<and> real (length [0, 3 :: int]) = 2"
proof -
  have c1: "coincidence_outer 2 3 [0, 3] [0, 3] (0, 0, 0, 0) = (0, 2, 0, 2)"
    by simp
  have coincidence_counters_sparse: "coincidence_outer 0 1 [0, 3] [0, 3] (0, 0, 0, 0) = (1, 0, 2, 0)"
    by simp
  show ?thesis
    using compute_nb_coincidence_counters [OF _ border_probabilities_5_2 c1]
      compute_nb_coincidence_counters [OF _ border_probabilities_1_2 coincidence_counters_sparse]
    by (simp add: inter_spike_gaps_def)
qed

section \<open>Gaussian histogram\<close>

text \<open>
  \<^bold>\<open>C10.\<close> \<open>gaussian_histogram\<close> returns the same result, the same array or the same
  exception, for every permutation of the events: the events need not be sorted.
\<close>

theorem gaussian_histogram_permutation:
  assumes "mset events' = mset events"
  shows "gaussian_histogram events' t_axis sigma trunc margin_reflect
         = gaussian_histogram events t_axis sigma trunc margin_reflect"
proof -
  have "mset (sort events) = mset events'" using assms by simp
  then have "sort events' = sort events"
    by (rule properties_for_sort) simp
  then show ?thesis by (simp add: gaussian_histogram_def)
qed

theorem gaussian_histogram_permutation_witness:
  "mset [3, 1, 2 :: real] = mset [1, 2, 3]
   \<and> gaussian_histogram [3, 1, 2] [0, 2, 4] (1/2) 5 True
       = gaussian_histogram [1, 2, 3] [0, 2, 4] (1/2) 5 True"
  using gaussian_histogram_permutation [of "[3, 1, 2]" "[1, 2, 3]" "[0, 2, 4]" "1/2" 5 True]
  by simp

text \<open>With \<open>sigma = 0\<close> the kernel raises nothing and no density is a finite number.\<close>

lemma gaussian_histogram_sigma_zero:
  "gaussian_histogram [1, 2] [0, 1] 0 5 False = Inr [None, None]"
  by (simp add: gaussian_histogram_def gaussian_kernel_def kernel_term_def np_divide_def)

section \<open>Validation of the input\<close>

text \<open>
  \<^bold>\<open>C9.\<close> The claim: every operation checks the \<open>InvalidInput\<close> conditions at entry and
  fails when one holds. \<open>estimate_contamination\<close> returns a number on a train that is
  not ascending, on a train with a negative spike time and on a period with
  \<open>t_c > t_r\<close>.
\<close>

theorem estimate_contamination_accepts_invalid_input:
  "invalid_input [5, 3] (0, 1)
   \<and> estimate_contamination 30000 30000 [5, 3] (0, 1) = Inr 1
   \<and> invalid_input [-5, 3] (0, 1)
   \<and> estimate_contamination 30000 30000 [-5, 3] (0, 1) = Inr 1
   \<and> invalid_input [0, 50] (2, 1)
   \<and> estimate_contamination 30000 30000 [0, 50] (2, 1) = Inr 0"
  by (simp add: invalid_input_def eval_defs)

text \<open>
  \<^bold>\<open>C9, as amended.\<close> \<open>compute_similarity_matrix\<close> fails with an assertion error exactly
  when the shape of the coincidence matrix is not \<open>(len(n_spikes1), len(n_spikes2))\<close>.
  \<open>estimate_contamination\<close> checks nothing: it raises exactly when the train is empty,
  the sampling frequency is zero or \<open>t_c = t_r\<close>, and what it raises is the
  \<open>ZeroDivisionError\<close> of its division.
\<close>

theorem validation_only_of_shape:
  "(compute_similarity_matrix t_max coincidence_matrix n_spikes1 n_spikes2 window
      = Inl AssertionError
    \<longleftrightarrow> shape coincidence_matrix \<noteq> (length n_spikes1, length n_spikes2))
   \<and> (if spike_train = [] \<or> sampling_frequency = 0 \<or> t_c = t_r
       then estimate_contamination sampling_frequency t_max spike_train (t_c, t_r)
              = Inl ZeroDivisionError
       else \<exists>C. estimate_contamination sampling_frequency t_max spike_train (t_c, t_r) = Inr C)"
  by (auto simp: compute_similarity_matrix_def estimate_contamination_def Let_def)

section \<open>Gaussian mask of the band filter\<close>

lemma py_round_bounds: "x - 1/2 \<le> of_int (py_round x) \<and> of_int (py_round x) \<le> x + 1/2"
  unfolding py_round_def Let_def by (auto; linarith)

lemma norm_pdf_scaled: "norm_pdf y * sqrt (2 * pi) = exp (- y\<^sup>2 / 2)"
  by (simp add: norm_pdf_def)

text \<open>
  \<^bold>\<open>C8.\<close> For a signal of \<open>N > 0\<close> samples and a cutoff frequency \<open>f\<close> (the sampling
  frequency being positive), the mask is built in the time domain if and only if
  \<open>f > sampling_frequency / 8\<close>: the samples at \<open>-limit, \<dots>, limit\<close> of the normal density of
  standard deviation \<open>sigma = sampling_frequency / (2\<pi>f)\<close>, where \<open>limit\<close> lies between
  \<open>6 sigma\<close> and \<open>6 sigma + 1.5\<close>, and the modulus of their discrete Fourier transform of
  length \<open>N\<close>. Otherwise it is the Gaussian \<open>exp (-(x/f)\<^sup>2 / 2)\<close>, centred at \<open>0\<close> with scale
  \<open>f\<close>, at the points \<open>x\<close> of the frequency axis of the transform; at \<open>f = 0\<close> the floats
  that this formula gives are \<open>nan\<close> at the frequency \<open>0\<close> and \<open>0.0\<close> at every other.
\<close>

theorem create_fft_gaussian_regimes:
  assumes "0 < sampling_frequency" and "0 < N"
  shows "if cutoff_freq > sampling_frequency / 8 then
           (\<exists>sigma limit spectrum.
              sigma = sampling_frequency / (2 * pi * cutoff_freq)
              \<and> limit = py_round (6 * sigma) + 1
              \<and> 6 * sigma < real_of_int limit \<and> real_of_int limit \<le> 6 * sigma + 3/2
              \<and> np_fft (map (\<lambda>i. complex_of_real
                                    (exp (- (real_of_int i / sigma)\<^sup>2 / 2) / sqrt (2 * pi) / sigma))
                           [- limit .. limit]) N = Inr spectrum
              \<and> create_fft_gaussian sampling_frequency N cutoff_freq
                  = Inr (map (\<lambda>z. Some (cmod z)) spectrum))
         else
           (\<exists>freq_axis.
              np_fftfreq N (1 / sampling_frequency) = Inr freq_axis
              \<and> create_fft_gaussian sampling_frequency N cutoff_freq
                  = Inr (map (\<lambda>x. if cutoff_freq = 0 then (if x = 0 then None else Some 0)
                                   else Some (exp (- (x / cutoff_freq)\<^sup>2 / 2))) freq_axis))"
proof (cases "cutoff_freq > sampling_frequency / 8")
  case True
  define sigma where "sigma = sampling_frequency / (2 * pi * cutoff_freq)"
  define limit where "limit = py_round (6 * sigma) + 1"
  have c: "0 < cutoff_freq" using True assms(1) by simp
  then have s: "0 < sigma" unfolding sigma_def using assms(1) by simp
  have b: "6 * sigma < real_of_int limit" "real_of_int limit \<le> 6 * sigma + 3/2"
    using py_round_bounds [of "6 * sigma"] unfolding limit_def by simp_all
  obtain spectrum where f: "np_fft (map (\<lambda>i. complex_of_real
        (exp (- (real_of_int i / sigma)\<^sup>2 / 2) / sqrt (2 * pi) / sigma)) [- limit .. limit]) N
       = Inr spectrum"
    using assms(2) by (simp add: np_fft_def Let_def)
  have "create_fft_gaussian sampling_frequency N cutoff_freq
          = Inr (map (\<lambda>z. Some (cmod z)) spectrum)"
    using True c s f
    unfolding create_fft_gaussian_def sigma_def [symmetric] limit_def [symmetric] Let_def
    by (simp add: norm_pdf_def comp_def sigma_def [symmetric] del: of_real_divide of_real_exp)
  with True b f sigma_def limit_def show ?thesis by auto
next
  case False
  obtain freq_axis where f: "np_fftfreq N (1 / sampling_frequency) = Inr freq_axis"
    using assms by (simp add: np_fftfreq_def Let_def)
  have "create_fft_gaussian sampling_frequency N cutoff_freq
          = Inr (map (\<lambda>x. if cutoff_freq = 0 then (if x = 0 then None else Some 0)
                           else Some (exp (- (x / cutoff_freq)\<^sup>2 / 2))) freq_axis)"
    using False f assms(1)
    by (simp add: create_fft_gaussian_def norm_pdf_scaled)
  with False f show ?thesis by auto
qed


lemma np_fftfreq_length:
  assumes "np_fftfreq n d = Inr xs"
  shows "length xs = n"
proof -
  have n: "n \<noteq> 0" using assms by (auto simp: np_fftfreq_def split: if_splits)
  have "xs = map (\<lambda>i. real_of_int i * (1 / (real n * d)))
               ([0 .. (int n - 1) div 2] @ [- (int n div 2) .. - 1])"
    using assms by (auto simp: np_fftfreq_def Let_def split: if_splits)
  then have "length xs = nat ((int n - 1) div 2 + 1) + nat (int n div 2)"
    by simp
  also have "\<dots> = n" using n by (simp add: nat_add_distrib [symmetric])
  finally show ?thesis .
qed

lemma fftfreq_4: "np_fftfreq 4 (1 / 30000) = Inr [0, 7500, - 15000, - 7500]"
  by (simp add: np_fftfreq_def Let_def upto.simps)

theorem create_fft_gaussian_regimes_witness:
  "(0 :: real) < 30000 \<and> (0 :: nat) < 4 \<and> \<not> (300 :: real) > 30000 / 8
   \<and> create_fft_gaussian 30000 4 300
       = Inr [Some 1, Some (exp (- 625 / 2)), Some (exp (- 1250)), Some (exp (- 625 / 2))]
   \<and> create_fft_gaussian 30000 4 0 = Inr [None, Some 0, Some 0, Some 0]
   \<and> (15000 :: real) > 30000 / 8
   \<and> (\<exists>sigma limit spectrum.
         sigma = 30000 / (2 * pi * 15000)
         \<and> limit = py_round (6 * sigma) + 1
         \<and> 6 * sigma < real_of_int limit \<and> real_of_int limit \<le> 6 * sigma + 3/2
         \<and> np_fft (map (\<lambda>i. complex_of_real
                               (exp (- (real_of_int i / sigma)\<^sup>2 / 2) / sqrt (2 * pi) / sigma))
                      [- limit .. limit]) 4 = Inr spectrum
         \<and> create_fft_gaussian 30000 4 15000 = Inr (map (\<lambda>z. Some (cmod z)) spectrum))"
proof -
  have h: "(0 :: real) < 30000" "(0 :: nat) < 4" by simp_all
  have a: "create_fft_gaussian 30000 4 300
       = Inr [Some 1, Some (exp (- 625 / 2)), Some (exp (- 1250)), Some (exp (- 625 / 2))]"
    using create_fft_gaussian_regimes [OF h, of 300] fftfreq_4 by simp
  have z: "create_fft_gaussian 30000 4 0 = Inr [None, Some 0, Some 0, Some 0]"
    using create_fft_gaussian_regimes [OF h, of 0] fftfreq_4 by simp
  have c: "(15000 :: real) > 30000 / 8" by simp
  from create_fft_gaussian_regimes [OF h, of 15000] c
  have b: "\<exists>sigma limit spectrum.
         sigma = 30000 / (2 * pi * 15000)
         \<and> limit = py_round (6 * sigma) + 1
         \<and> 6 * sigma < real_of_int limit \<and> real_of_int limit \<le> 6 * sigma + 3/2
         \<and> np_fft (map (\<lambda>i. complex_of_real
                               (exp (- (real_of_int i / sigma)\<^sup>2 / 2) / sqrt (2 * pi) / sigma))
                      [- limit .. limit]) 4 = Inr spectrum
         \<and> create_fft_gaussian 30000 4 15000 = Inr (map (\<lambda>z. Some (cmod z)) spectrum)"
    by (simp only: if_True)
  have d: "\<not> (300 :: real) > 30000 / 8" by simp
  from a z b h c d show ?thesis by blast
qed

end
